theory Spec2Isabelle
  imports Complex_Main "HOL-Library.Extended_Nat"
begin

section \<open>Engine objects as the scene component uses them\<close>

text \<open>
  The component \<open>GameScene\<close> keeps its whole state in refs and drives a 3D engine. The
  repository holds two versions of it, which agree on every function they share; the
  later one adds the pickup interaction (\<open>checkOrbProximity\<close>, \<open>pickupOrb\<close>, the
  prompt) and is the one modelled. Left out is what the game logic does not read:
  lights, ground, trees, skybox, camera, renderer, the loading bar, and the poses that
  the engine's mixers compute from the actions.

  The engine's objects are modelled by the properties the component reads and writes:
  a vector by its three coordinates, an object by its position, the pickup mesh by its
  position, its rotation about the vertical axis and the emissive intensity of its
  material. JavaScript numbers are idealised as reals.
\<close>

datatype vector3 = Vector3 (vx: real) (vy: real) (vz: real)

text \<open>\<open>Vector3.distanceTo\<close>: the square root of the sum of the squared differences.\<close>

definition distanceToSquared :: "vector3 \<Rightarrow> vector3 \<Rightarrow> real" where
  "distanceToSquared a b =
     (vx a - vx b) * (vx a - vx b) + (vy a - vy b) * (vy a - vy b)
       + (vz a - vz b) * (vz a - vz b)"

definition distanceTo :: "vector3 \<Rightarrow> vector3 \<Rightarrow> real" where
  "distanceTo a b = sqrt (distanceToSquared a b)"

record object3D =
  position :: vector3

record mesh = object3D +
  rotation_y :: real
  emissiveIntensity :: real

text \<open>
  An \<open>AnimationAction\<close> of the engine, by the properties that the calls
  \<open>fadeIn\<close>, \<open>fadeOut\<close>, \<open>reset\<close>, \<open>setLoop\<close>, \<open>play\<close> and the assignment to
  \<open>clampWhenFinished\<close> set. \<open>fading\<close> is the fade scheduled last, with its duration in
  seconds; \<open>scheduled\<close> says that \<open>play\<close> has activated the action. \<open>clipAction\<close> is a
  new action with the engine's defaults (repeating for ever, not clamping).
\<close>

datatype loop_mode = LoopOnce | LoopRepeat

datatype fade = FadeIn real | FadeOut real

record animationAction =
  enabled :: bool
  paused :: bool
  time :: real
  loop :: loop_mode
  repetitions :: enat
  clampWhenFinished :: bool
  fading :: "fade option"
  scheduled :: bool

definition clipAction :: animationAction where
  "clipAction = \<lparr>enabled = True, paused = False, time = 0, loop = LoopRepeat,
     repetitions = \<infinity>, clampWhenFinished = False, fading = None, scheduled = False\<rparr>"

definition fadeIn :: "real \<Rightarrow> animationAction \<Rightarrow> animationAction" where
  "fadeIn d a = a\<lparr>fading := Some (FadeIn d)\<rparr>"

definition fadeOut :: "real \<Rightarrow> animationAction \<Rightarrow> animationAction" where
  "fadeOut d a = a\<lparr>fading := Some (FadeOut d)\<rparr>"

definition reset :: "animationAction \<Rightarrow> animationAction" where
  "reset a = a\<lparr>paused := False, enabled := True, time := 0, fading := None\<rparr>"

definition setLoop :: "loop_mode \<Rightarrow> enat \<Rightarrow> animationAction \<Rightarrow> animationAction" where
  "setLoop m n a = a\<lparr>loop := m, repetitions := n\<rparr>"

definition play :: "animationAction \<Rightarrow> animationAction" where
  "play a = a\<lparr>scheduled := True\<rparr>"

section \<open>The state of the component\<close>

text \<open>
  One field for each ref of \<open>GameScene\<close> that the game logic uses, under the ref's name.
  \<open>zombieStateRef\<close> is a string, as in the source. \<open>keysRef\<close> and the two action
  tables are string-keyed objects, modelled as maps. The counters and clip lists of the
  asset loaders are the closure variables of the effect. \<open>sceneOrbs\<close> counts the
  pickup meshes that are children of the scene. \<open>timers\<close> holds the callbacks that
  \<open>setTimeout\<close> has scheduled and that have not run, each with the millisecond at
  which it is due, in the order of scheduling; \<open>now\<close> is the clock in milliseconds.
\<close>

datatype callback = CheckHitCallback | AttackEndCallback | CreateOrbCallback

record game =
  playerRef :: "object3D option"
  keysRef :: "string \<rightharpoonup> bool"
  actionsRef :: "string \<rightharpoonup> animationAction"
  currentActionRef :: string
  isAttackingRef :: bool
  zombieRef :: "object3D option"
  zombieActionsRef :: "string \<rightharpoonup> animationAction"
  zombieStateRef :: string
  glowingOrbRef :: "mesh option"
  showPickupPrompt :: bool
  sceneOrbs :: nat
  loadedAnimations :: nat
  animationClips :: "string list"
  loadedCount :: nat
  zombieAnimations :: "string list"
  timers :: "(nat \<times> callback) list"
  now :: nat

datatype error = TypeError

text \<open>The state right after the effect has run: the player group exists at the origin,
  nothing is loaded, the zombie is alive, no key is held.\<close>

definition init :: "nat \<Rightarrow> game" where
  "init t0 = \<lparr>playerRef = Some \<lparr>position = Vector3 0 0 0\<rparr>, keysRef = Map.empty,
     actionsRef = Map.empty, currentActionRef = ''idle'', isAttackingRef = False,
     zombieRef = None, zombieActionsRef = Map.empty, zombieStateRef = ''alive'',
     glowingOrbRef = None, showPickupPrompt = False, sceneOrbs = 0,
     loadedAnimations = 0, animationClips = [], loadedCount = 0, zombieAnimations = [],
     timers = [], now = t0\<rparr>"

text \<open>\<open>keysRef.current[code]\<close> in a condition: true when the entry is there and true.\<close>

definition pressed :: "game \<Rightarrow> string \<Rightarrow> bool" where
  "pressed s code = (keysRef s code = Some True)"

text \<open>\<open>setTimeout(cb, delay)\<close>: the callback is due \<open>delay\<close> milliseconds from now.\<close>

definition setTimeout :: "callback \<Rightarrow> nat \<Rightarrow> game \<Rightarrow> game" where
  "setTimeout cb delay s = s\<lparr>timers := timers s @ [(now s + delay, cb)]\<rparr>"

section \<open>Animation tables\<close>

definition makeActions :: "string list \<Rightarrow> string \<rightharpoonup> animationAction" where
  "makeActions clips = foldl (\<lambda>actions name. actions(name \<mapsto> clipAction)) Map.empty clips"

definition setupAnimations :: "string list \<Rightarrow> game \<Rightarrow> game" where
  "setupAnimations animations s =
     (let actions = makeActions animations in
      case actions ''idle'' of
        None \<Rightarrow> s\<lparr>actionsRef := actions\<rparr>
      | Some idle \<Rightarrow>
          s\<lparr>actionsRef := actions(''idle'' \<mapsto> play idle), currentActionRef := ''idle''\<rparr>)"

definition playAnimation :: "string \<Rightarrow> bool \<Rightarrow> game \<Rightarrow> game" where
  "playAnimation animationName lp s =
     (let actions = actionsRef s; currentAction = currentActionRef s in
      case actions animationName of
        None \<Rightarrow> s
      | Some target \<Rightarrow>
          if currentAction = animationName then s
          else
            let faded = (case actions currentAction of
                           None \<Rightarrow> actions
                         | Some cur \<Rightarrow> actions(currentAction \<mapsto> fadeOut 0.2 cur));
                started = play (setLoop (if lp then LoopRepeat else LoopOnce) \<infinity>
                                  (fadeIn 0.2 (reset target)))
            in s\<lparr>actionsRef := faded(animationName \<mapsto> started),
                 currentActionRef := animationName\<rparr>)"

section \<open>Asset loader callbacks\<close>

text \<open>
  The success callbacks of the FBX loads. What the loaded file contributes is whether it
  carries an animation clip (\<open>fbx.animations.length > 0\<close>).
\<close>

definition loadAnimation :: "string \<Rightarrow> bool \<Rightarrow> game \<Rightarrow> game" where
  "loadAnimation animationName hasClip s =
     (let s1 = (if hasClip then s\<lparr>animationClips := animationClips s @ [animationName]\<rparr>
                else s);
          s2 = s1\<lparr>loadedAnimations := loadedAnimations s1 + 1\<rparr>
      in if loadedAnimations s2 = 6 then setupAnimations (animationClips s2) s2 else s2)"

definition setupZombieAnimations :: "game \<Rightarrow> game" where
  "setupZombieAnimations s =
     (if loadedCount s = 2 \<and> zombieRef s \<noteq> None then
        (let actions = makeActions (zombieAnimations s) in
         case actions ''zombieIdle'' of
           None \<Rightarrow> s\<lparr>zombieActionsRef := actions\<rparr>
         | Some idle \<Rightarrow> s\<lparr>zombieActionsRef := actions(''zombieIdle'' \<mapsto> play idle)\<rparr>)
      else s)"

definition zombieIdleLoaded :: "bool \<Rightarrow> game \<Rightarrow> game" where
  "zombieIdleLoaded hasClip s =
     (let s1 = (if hasClip then s\<lparr>zombieAnimations := zombieAnimations s @ [''zombieIdle'']\<rparr>
                else s);
          s2 = s1\<lparr>zombieRef := Some \<lparr>position = Vector3 (- 5) 0 (- 5)\<rparr>,
                  loadedCount := loadedCount s1 + 1\<rparr>
      in setupZombieAnimations s2)"

definition zombieDeathLoaded :: "bool \<Rightarrow> game \<Rightarrow> game" where
  "zombieDeathLoaded hasClip s =
     (let s1 = (if hasClip then s\<lparr>zombieAnimations := zombieAnimations s @ [''zombieDeath'']\<rparr>
                else s);
          s2 = s1\<lparr>loadedCount := loadedCount s1 + 1\<rparr>
      in setupZombieAnimations s2)"

section \<open>Combat and pickup\<close>

definition checkHit :: "game \<Rightarrow> bool" where
  "checkHit s =
     (case playerRef s of
        None \<Rightarrow> False
      | Some player \<Rightarrow>
          (case zombieRef s of
             None \<Rightarrow> False
           | Some zombie \<Rightarrow>
               if zombieStateRef s = ''dead'' then False
               else
                 let distance = distanceTo (position player) (position zombie);
                     hitRange = 3.0
                 in distance \<le> hitRange))"

definition createGlowingOrb :: "vector3 \<Rightarrow> game \<Rightarrow> game" where
  "createGlowingOrb pos s =
     (let orb = \<lparr>position = Vector3 (vx pos) (vy pos + 1) (vz pos),
                 rotation_y = 0, emissiveIntensity = 0.5\<rparr>
      in s\<lparr>sceneOrbs := sceneOrbs s + 1, glowingOrbRef := Some orb\<rparr>)"

definition killZombie :: "game \<Rightarrow> game" where
  "killZombie s =
     (if zombieStateRef s = ''dead'' then s
      else
        let s1 = s\<lparr>zombieStateRef := ''dead''\<rparr>;
            actions = zombieActionsRef s1;
            actions1 = (case actions ''zombieIdle'' of
                          None \<Rightarrow> actions
                        | Some idle \<Rightarrow> actions(''zombieIdle'' \<mapsto> fadeOut 0.2 idle));
            actions2 = (case actions1 ''zombieDeath'' of
                          None \<Rightarrow> actions1
                        | Some death \<Rightarrow>
                            actions1(''zombieDeath'' \<mapsto>
                              play ((setLoop LoopOnce 1 (fadeIn 0.2 (reset death)))
                                      \<lparr>clampWhenFinished := True\<rparr>)));
            s2 = s1\<lparr>zombieActionsRef := actions2\<rparr>
        in if zombieRef s2 \<noteq> None then setTimeout CreateOrbCallback 2000 s2 else s2)"

definition checkOrbProximity :: "game \<Rightarrow> bool" where
  "checkOrbProximity s =
     (case playerRef s of
        None \<Rightarrow> False
      | Some player \<Rightarrow>
          (case glowingOrbRef s of
             None \<Rightarrow> False
           | Some orb \<Rightarrow>
               let distance = distanceTo (position player) (position orb);
                   interactionRange = 2.5
               in distance \<le> interactionRange))"

text \<open>\<open>sceneRef.current\<close> is assigned once, before any handler can run, and never
  cleared: the second half of \<open>pickupOrb\<close>'s guard always holds.\<close>

definition pickupOrb :: "game \<Rightarrow> game" where
  "pickupOrb s =
     (case glowingOrbRef s of
        None \<Rightarrow> s
      | Some orb \<Rightarrow>
          s\<lparr>sceneOrbs := sceneOrbs s - 1, glowingOrbRef := None, showPickupPrompt := False\<rparr>)"

section \<open>Input handlers\<close>

definition handleKeyDown :: "string \<Rightarrow> game \<Rightarrow> game" where
  "handleKeyDown code s =
     (let s1 = s\<lparr>keysRef := (keysRef s)(code \<mapsto> True)\<rparr>
      in if code = ''KeyE'' \<and> checkOrbProximity s1 then pickupOrb s1 else s1)"

definition handleKeyUp :: "string \<Rightarrow> game \<Rightarrow> game" where
  "handleKeyUp code s = s\<lparr>keysRef := (keysRef s)(code \<mapsto> False)\<rparr>"

definition handleMouseClick :: "nat \<Rightarrow> game \<Rightarrow> game" where
  "handleMouseClick button s =
     (if button = 0 \<and> \<not> isAttackingRef s then
        setTimeout AttackEndCallback 1000
          (setTimeout CheckHitCallback 300
             (playAnimation ''attack'' False (s\<lparr>isAttackingRef := True\<rparr>)))
      else s)"

section \<open>Timer callbacks\<close>

text \<open>The callback scheduled 300 ms after the click.\<close>

definition checkHitCallback :: "game \<Rightarrow> game" where
  "checkHitCallback s = (if checkHit s then killZombie s else s)"

text \<open>The callback scheduled 1000 ms after the click.\<close>

definition attackEndCallback :: "game \<Rightarrow> game" where
  "attackEndCallback s =
     (let s1 = s\<lparr>isAttackingRef := False\<rparr>;
          isMoving = (pressed s1 ''KeyW'' \<or> pressed s1 ''KeyS'' \<or> pressed s1 ''KeyA''
                      \<or> pressed s1 ''KeyD'' \<or> pressed s1 ''ArrowUp''
                      \<or> pressed s1 ''ArrowDown'' \<or> pressed s1 ''ArrowLeft''
                      \<or> pressed s1 ''ArrowRight'')
      in if isMoving then
           (if pressed s1 ''KeyW'' \<or> pressed s1 ''ArrowUp'' then
              playAnimation ''walkForward'' True s1
            else if pressed s1 ''KeyS'' \<or> pressed s1 ''ArrowDown'' then
              playAnimation ''walkBack'' True s1
            else if pressed s1 ''KeyA'' \<or> pressed s1 ''ArrowLeft'' then
              playAnimation ''strafeLeft'' True s1
            else if pressed s1 ''KeyD'' \<or> pressed s1 ''ArrowRight'' then
              playAnimation ''strafeRight'' True s1
            else playAnimation ''idle'' True s1)
         else playAnimation ''idle'' True s1)"

text \<open>
  The callback scheduled 2000 ms after the kill. It reads
  \<open>zombieRef.current!.position\<close>: with no zombie object the read raises.
\<close>

definition createOrbCallback :: "game \<Rightarrow> error + game" where
  "createOrbCallback s =
     (case zombieRef s of
        None \<Rightarrow> Inl TypeError
      | Some zombie \<Rightarrow> Inr (createGlowingOrb (position zombie) s))"

subsection \<open>The callbacks with every dereference written out\<close>

text \<open>
  In the definitions above a test and the access it protects are one \<open>case\<close>. Here
  they are apart, as in the source: a condition tests a ref or a table entry, and each
  property access or method call on it is a dereference that raises when the value is
  absent. \<open>deref\<close> is that access; \<open>onAction name f\<close> is a method call on
  \<open>actions[name]\<close>. The event loop runs these forms.
\<close>

definition deref :: "'a option \<Rightarrow> error + 'a" where
  "deref r = (case r of None \<Rightarrow> Inl TypeError | Some x \<Rightarrow> Inr x)"

definition andThen :: "error + 'a \<Rightarrow> ('a \<Rightarrow> error + 'b) \<Rightarrow> error + 'b" where
  "andThen r f = (case r of Inl err \<Rightarrow> Inl err | Inr x \<Rightarrow> f x)"

definition onAction ::
  "string \<Rightarrow> (animationAction \<Rightarrow> animationAction) \<Rightarrow> (string \<rightharpoonup> animationAction)
     \<Rightarrow> error + (string \<rightharpoonup> animationAction)"
where
  "onAction name f actions = andThen (deref (actions name)) (\<lambda>a. Inr (actions(name \<mapsto> f a)))"

definition checkHitE :: "game \<Rightarrow> error + bool" where
  "checkHitE s =
     (if playerRef s = None \<or> zombieRef s = None \<or> zombieStateRef s = ''dead''
      then Inr False
      else
        andThen (deref (playerRef s)) (\<lambda>player.
        andThen (deref (zombieRef s)) (\<lambda>zombie.
          let distance = distanceTo (position player) (position zombie);
              hitRange = 3.0
          in Inr (distance \<le> hitRange))))"

definition killZombieE :: "game \<Rightarrow> error + game" where
  "killZombieE s =
     (if zombieStateRef s = ''dead'' then Inr s
      else
        let s1 = s\<lparr>zombieStateRef := ''dead''\<rparr>;
            actions = zombieActionsRef s1
        in
        andThen (if actions ''zombieIdle'' \<noteq> None
                 then onAction ''zombieIdle'' (fadeOut 0.2) actions else Inr actions)
          (\<lambda>actions1.
        andThen (if actions1 ''zombieDeath'' \<noteq> None
                 then onAction ''zombieDeath''
                        (\<lambda>death. play ((setLoop LoopOnce 1 (fadeIn 0.2 (reset death)))
                                         \<lparr>clampWhenFinished := True\<rparr>)) actions1
                 else Inr actions1)
          (\<lambda>actions2.
             let s2 = s1\<lparr>zombieActionsRef := actions2\<rparr>
             in Inr (if zombieRef s2 \<noteq> None then setTimeout CreateOrbCallback 2000 s2
                     else s2))))"

definition playAnimationE :: "string \<Rightarrow> bool \<Rightarrow> game \<Rightarrow> error + game" where
  "playAnimationE animationName lp s =
     (let actions = actionsRef s; currentAction = currentActionRef s in
      if actions animationName \<noteq> None \<and> currentAction \<noteq> animationName then
        andThen (if actions currentAction \<noteq> None
                 then onAction currentAction (fadeOut 0.2) actions else Inr actions)
          (\<lambda>faded.
        andThen (onAction animationName
                   (\<lambda>target. play (setLoop (if lp then LoopRepeat else LoopOnce) \<infinity>
                                     (fadeIn 0.2 (reset target)))) faded)
          (\<lambda>started.
             Inr (s\<lparr>actionsRef := started, currentActionRef := animationName\<rparr>)))
      else Inr s)"

definition checkHitCallbackE :: "game \<Rightarrow> error + game" where
  "checkHitCallbackE s = andThen (checkHitE s) (\<lambda>hit. if hit then killZombieE s else Inr s)"

definition attackEndCallbackE :: "game \<Rightarrow> error + game" where
  "attackEndCallbackE s =
     (let s1 = s\<lparr>isAttackingRef := False\<rparr>;
          isMoving = (pressed s1 ''KeyW'' \<or> pressed s1 ''KeyS'' \<or> pressed s1 ''KeyA''
                      \<or> pressed s1 ''KeyD'' \<or> pressed s1 ''ArrowUp''
                      \<or> pressed s1 ''ArrowDown'' \<or> pressed s1 ''ArrowLeft''
                      \<or> pressed s1 ''ArrowRight'')
      in if isMoving then
           (if pressed s1 ''KeyW'' \<or> pressed s1 ''ArrowUp'' then
              playAnimationE ''walkForward'' True s1
            else if pressed s1 ''KeyS'' \<or> pressed s1 ''ArrowDown'' then
              playAnimationE ''walkBack'' True s1
            else if pressed s1 ''KeyA'' \<or> pressed s1 ''ArrowLeft'' then
              playAnimationE ''strafeLeft'' True s1
            else if pressed s1 ''KeyD'' \<or> pressed s1 ''ArrowRight'' then
              playAnimationE ''strafeRight'' True s1
            else playAnimationE ''idle'' True s1)
         else playAnimationE ''idle'' True s1)"

fun runCallback :: "callback \<Rightarrow> game \<Rightarrow> error + game" where
  "runCallback CheckHitCallback s = checkHitCallbackE s"
| "runCallback AttackEndCallback s = attackEndCallbackE s"
| "runCallback CreateOrbCallback s = createOrbCallback s"

section \<open>The frame callback\<close>

definition animateOrb :: "game \<Rightarrow> game" where
  "animateOrb s =
     (case glowingOrbRef s of
        None \<Rightarrow> s
      | Some orb \<Rightarrow>
          let t = real (now s) * 0.003;
              p = position orb;
              pulseFactor = (sin (t * 2) + 1) * 0.5
          in s\<lparr>glowingOrbRef :=
                 Some (orb\<lparr>position := Vector3 (vx p) (vy p + sin t * 0.002) (vz p),
                           rotation_y := rotation_y orb + 0.01,
                           emissiveIntensity := 0.3 + pulseFactor * 0.4\<rparr>)\<rparr>)"

text \<open>
  One of the four \<open>if\<close> statements of the movement block: when its keys are held it
  moves the position, sets \<open>moved\<close> and overwrites \<open>currentMovement\<close>.
\<close>

definition moveIf ::
  "bool \<Rightarrow> (vector3 \<Rightarrow> vector3) \<Rightarrow> string \<Rightarrow> vector3 \<times> bool \<times> string \<Rightarrow> vector3 \<times> bool \<times> string"
where
  "moveIf held shift name m = (if held then (shift (fst m), True, name) else m)"

definition moveSpeed :: real where
  "moveSpeed = 0.1"

definition movement :: "game \<Rightarrow> vector3 \<Rightarrow> vector3 \<times> bool \<times> string" where
  "movement s pos =
     (if \<not> isAttackingRef s then
        moveIf (pressed s ''KeyD'' \<or> pressed s ''ArrowRight'')
            (\<lambda>p. Vector3 (vx p + moveSpeed) (vy p) (vz p)) ''strafeRight''
          (moveIf (pressed s ''KeyA'' \<or> pressed s ''ArrowLeft'')
              (\<lambda>p. Vector3 (vx p - moveSpeed) (vy p) (vz p)) ''strafeLeft''
            (moveIf (pressed s ''KeyS'' \<or> pressed s ''ArrowDown'')
                (\<lambda>p. Vector3 (vx p) (vy p) (vz p + moveSpeed)) ''walkBack''
              (moveIf (pressed s ''KeyW'' \<or> pressed s ''ArrowUp'')
                  (\<lambda>p. Vector3 (vx p) (vy p) (vz p - moveSpeed)) ''walkForward''
                (pos, False, ''''))))
      else (pos, False, ''''))"

definition animate :: "game \<Rightarrow> game" where
  "animate s =
     (let s1 = animateOrb s in
      case playerRef s1 of
        None \<Rightarrow> s1
      | Some player \<Rightarrow>
          let currentAction = currentActionRef s1;
              m = movement s1 (position player);
              moved = fst (snd m);
              currentMovement = snd (snd m);
              s2 = s1\<lparr>playerRef := Some (player\<lparr>position := fst m\<rparr>)\<rparr>;
              s3 = (if \<not> isAttackingRef s2 then
                      (if moved \<and> currentAction \<noteq> ''attack'' then
                         (if currentAction \<noteq> currentMovement
                          then playAnimation currentMovement True s2 else s2)
                       else if \<not> moved \<and> currentAction \<noteq> ''attack'' then
                         (if currentAction \<noteq> ''idle''
                          then playAnimation ''idle'' True s2 else s2)
                       else s2)
                    else s2)
          in s3\<lparr>showPickupPrompt := checkOrbProximity s3\<rparr>)"

section \<open>Teardown\<close>

text \<open>
  The cleanup that the effect returns. It removes the four listeners and the canvas,
  disposes the renderer and calls \<open>stopAllAction\<close> on both mixers, which stops and
  resets every action. It clears no ref and cancels neither the scheduled callbacks nor
  the frame loop.
\<close>

definition stop :: "animationAction \<Rightarrow> animationAction" where
  "stop a = reset (a\<lparr>scheduled := False\<rparr>)"

definition stopAllAction :: "(string \<rightharpoonup> animationAction) \<Rightarrow> (string \<rightharpoonup> animationAction)" where
  "stopAllAction actions = (\<lambda>name. map_option stop (actions name))"

definition cleanup :: "game \<Rightarrow> game" where
  "cleanup s = s\<lparr>actionsRef := stopAllAction (actionsRef s),
                  zombieActionsRef := stopAllAction (zombieActionsRef s)\<rparr>"

section \<open>The event loop\<close>

text \<open>
  The host delivers input events, frames, load completions, timeouts and the teardown
  one at a time. The timers are idealised as exact: \<open>Tick\<close> advances the clock by a
  millisecond only when no scheduled callback is due, and \<open>Timeout\<close> runs the due
  callback that was scheduled first and takes it off the list. After \<open>Cleanup\<close> the
  host delivers no more input events; the model lets every event follow it, so what
  holds of all its runs holds of those the host produces.
\<close>

datatype event =
    KeyDown string
  | KeyUp string
  | MouseDown nat
  | AnimationFrame
  | AnimationLoaded string bool
  | ZombieIdleLoaded bool
  | ZombieDeathLoaded bool
  | Timeout
  | Tick
  | Cleanup

definition due :: "game \<Rightarrow> (nat \<times> callback) list" where
  "due s = filter (\<lambda>t. fst t \<le> now s) (timers s)"

definition timeout :: "game \<Rightarrow> error + game" where
  "timeout s =
     (case due s of
        [] \<Rightarrow> Inr s
      | t # _ \<Rightarrow> runCallback (snd t) (s\<lparr>timers := remove1 t (timers s)\<rparr>))"

definition tick :: "game \<Rightarrow> game" where
  "tick s = (if due s = [] then s\<lparr>now := now s + 1\<rparr> else s)"

fun step :: "event \<Rightarrow> game \<Rightarrow> error + game" where
  "step (KeyDown code) s = Inr (handleKeyDown code s)"
| "step (KeyUp code) s = Inr (handleKeyUp code s)"
| "step (MouseDown button) s = Inr (handleMouseClick button s)"
| "step AnimationFrame s = Inr (animate s)"
| "step (AnimationLoaded name hasClip) s = Inr (loadAnimation name hasClip s)"
| "step (ZombieIdleLoaded hasClip) s = Inr (zombieIdleLoaded hasClip s)"
| "step (ZombieDeathLoaded hasClip) s = Inr (zombieDeathLoaded hasClip s)"
| "step Timeout s = timeout s"
| "step Tick s = Inr (tick s)"
| "step Cleanup s = Inr (cleanup s)"

text \<open>Running a list of events stops at the first exception.\<close>

fun run :: "event list \<Rightarrow> game \<Rightarrow> error + game" where
  "run [] s = Inr s"
| "run (e # es) s = (case step e s of Inl err \<Rightarrow> Inl err | Inr s' \<Rightarrow> run es s')"

text \<open>The states a session can be in: those that events lead to from the initial one.\<close>

inductive reachable :: "game \<Rightarrow> bool" where
  reachable_init: "reachable (init t0)"
| reachable_step: "reachable s \<Longrightarrow> step e s = Inr s' \<Longrightarrow> reachable s'"

section \<open>Notions used to state the properties\<close>

text \<open>The due times of the pending pickup-spawn callbacks, in the order of scheduling.\<close>

definition spawnDue :: "game \<Rightarrow> nat list" where
  "spawnDue s = map fst (filter (\<lambda>t. snd t = CreateOrbCallback) (timers s))"

text \<open>The mesh that \<open>createGlowingOrb\<close> builds for a given position.\<close>

definition orbAt :: "vector3 \<Rightarrow> mesh" where
  "orbAt p = \<lparr>position = Vector3 (vx p) (vy p + 1) (vz p), rotation_y = 0, emissiveIntensity = 0.5\<rparr>"

text \<open>
  What holds in every state of a session: the zombie state is one of its two strings, no
  timer is overdue, nothing of the pickup exists while the zombie is alive, at most one
  spawn is pending and then there is no pickup yet and the zombie object is there, the
  scene holds exactly the pickup that the ref points to, and the player's action table is
  empty until the sixth animation has loaded.
\<close>

definition consistent :: "game \<Rightarrow> bool" where
  "consistent s \<longleftrightarrow>
     zombieStateRef s \<in> {''alive'', ''dead''}
     \<and> (\<forall>t \<in> set (timers s). now s \<le> fst t)
     \<and> (zombieStateRef s \<noteq> ''dead'' \<longrightarrow> spawnDue s = [] \<and> glowingOrbRef s = None)
     \<and> length (spawnDue s) \<le> 1
     \<and> (spawnDue s \<noteq> [] \<longrightarrow> glowingOrbRef s = None \<and> zombieRef s \<noteq> None)
     \<and> sceneOrbs s = (if glowingOrbRef s = None then 0 else 1)
     \<and> (loadedAnimations s < 6 \<longrightarrow> actionsRef s = Map.empty \<and> currentActionRef s = ''idle'')"

text \<open>
  What one event does to the enemy and the pickup: nothing, the kill (which schedules the
  spawn 2000 ms ahead), the spawn (at the millisecond it is due, one unit above the
  zombie), or the collection.
\<close>

datatype effect = Quiet | Kill | Spawn | Collect

definition effectOf :: "event \<Rightarrow> game \<Rightarrow> game \<Rightarrow> effect \<Rightarrow> bool" where
  "effectOf e s s' k =
     (case k of
        Quiet \<Rightarrow> zombieStateRef s' = zombieStateRef s \<and> spawnDue s' = spawnDue s
                  \<and> (glowingOrbRef s' = None) = (glowingOrbRef s = None)
      | Kill \<Rightarrow> e = Timeout \<and> zombieStateRef s \<noteq> ''dead'' \<and> zombieStateRef s' = ''dead''
                  \<and> spawnDue s' = [now s + 2000] \<and> glowingOrbRef s' = None
      | Spawn \<Rightarrow> e = Timeout \<and> zombieStateRef s' = zombieStateRef s \<and> spawnDue s = [now s]
                  \<and> spawnDue s' = [] \<and> glowingOrbRef s = None
                  \<and> (\<exists>zombie. zombieRef s = Some zombie
                        \<and> glowingOrbRef s' = Some (orbAt (position zombie)))
      | Collect \<Rightarrow> e = KeyDown ''KeyE'' \<and> checkOrbProximity s
                  \<and> zombieStateRef s' = zombieStateRef s \<and> spawnDue s' = spawnDue s
                  \<and> glowingOrbRef s \<noteq> None \<and> glowingOrbRef s' = None)"

text \<open>The number of times the zombie state changes along a run of events.\<close>

fun zombieTransitions :: "event list \<Rightarrow> game \<Rightarrow> nat" where
  "zombieTransitions [] s = 0"
| "zombieTransitions (e # es) s =
     (case step e s of
        Inl err \<Rightarrow> 0
      | Inr s' \<Rightarrow> (if zombieStateRef s' \<noteq> zombieStateRef s then 1 else 0)
                   + zombieTransitions es s')"

text \<open>
  The resume state in the words of the specification: the first held direction in the
  order forward, back, left, right, and idle when none is held. The forward keys are
  W and the up arrow, and likewise for the other directions.
\<close>

definition spec_resumeState :: "game \<Rightarrow> string" where
  "spec_resumeState s =
     (if pressed s ''KeyW'' \<or> pressed s ''ArrowUp'' then ''walkForward''
      else if pressed s ''KeyS'' \<or> pressed s ''ArrowDown'' then ''walkBack''
      else if pressed s ''KeyA'' \<or> pressed s ''ArrowLeft'' then ''strafeLeft''
      else if pressed s ''KeyD'' \<or> pressed s ''ArrowRight'' then ''strafeRight''
      else ''idle'')"

text \<open>No action of the player is set to hold its final pose.\<close>

definition unclamped :: "game \<Rightarrow> bool" where
  "unclamped s \<longleftrightarrow> (\<forall>name a. actionsRef s name = Some a \<longrightarrow> \<not> clampWhenFinished a)"

section \<open>A scenario: load, approach, strike, wait\<close>

text \<open>The six clip names that the effect loads for the player.\<close>

definition playerClips :: "string list" where
  "playerClips = [''idle'', ''attack'', ''walkForward'', ''walkBack'', ''strafeLeft'', ''strafeRight'']"

text \<open>The scene at time 0 with every player clip and both zombie files loaded.\<close>

definition loadedScene :: game where
  "loadedScene =
     zombieDeathLoaded True (zombieIdleLoaded True
       (foldl (\<lambda>s name. loadAnimation name True s) (init 0) playerClips))"

text \<open>W and A are held and the first frame has run; the player stands at \<open>(x, 0, z)\<close>.\<close>

definition walkingTo :: "real \<Rightarrow> real \<Rightarrow> game" where
  "walkingTo x z =
     (animate (handleKeyDown ''KeyA'' (handleKeyDown ''KeyW'' loadedScene)))
       \<lparr>playerRef := Some \<lparr>position = Vector3 x 0 z\<rparr>\<rparr>"

text \<open>After forty frames of walking the keys are released; the zombie is within reach.\<close>

definition nearZombie :: game where
  "nearZombie = handleKeyUp ''KeyA'' (handleKeyUp ''KeyW'' (walkingTo (- 4) (- 4)))"

text \<open>The left mouse button goes down.\<close>

definition struck :: game where
  "struck = handleMouseClick 0 nearZombie"

text \<open>300 ms later the hit callback is due.\<close>

definition hitDue :: game where
  "hitDue = struck\<lparr>now := 300\<rparr>"

text \<open>The hit callback has run.\<close>

definition killed :: game where
  "killed = checkHitCallback (hitDue\<lparr>timers := [(1000, AttackEndCallback)]\<rparr>)"

text \<open>At 1000 ms the attack-end callback has run.\<close>

definition attackOver :: game where
  "attackOver = attackEndCallback (killed\<lparr>now := 1000, timers := [(2300, CreateOrbCallback)]\<rparr>)"

text \<open>At 2300 ms the spawn callback is due.\<close>

definition spawnTime :: game where
  "spawnTime = attackOver\<lparr>now := 2300\<rparr>"

text \<open>The spawn callback has run.\<close>

definition spawned :: game where
  "spawned = createGlowingOrb (Vector3 (- 5) 0 (- 5)) (spawnTime\<lparr>timers := []\<rparr>)"

text \<open>W and D go down while the attack runs.\<close>

definition heldAttack :: game where
  "heldAttack = handleKeyDown ''KeyD'' (handleKeyDown ''KeyW'' struck)"

text \<open>W and D are held in the loaded scene, with no attack running.\<close>

definition diagonal :: game where
  "diagonal = handleKeyDown ''KeyD'' (handleKeyDown ''KeyW'' loadedScene)"

text \<open>In range of the pickup, the player presses E.\<close>

definition collected :: game where
  "collected = handleKeyDown ''KeyE'' spawned"

text \<open>A second scenario, in which no player file ever loads: only the zombie model has
  loaded, W and A are held, and the player group stands at \<open>(x, 0, z)\<close>.\<close>

definition earlyWalkingTo :: "real \<Rightarrow> real \<Rightarrow> game" where
  "earlyWalkingTo x z =
     (handleKeyDown ''KeyA'' (handleKeyDown ''KeyW'' (zombieIdleLoaded True (init 0))))
       \<lparr>playerRef := Some \<lparr>position = Vector3 x 0 z\<rparr>\<rparr>"

text \<open>After forty frames the keys are released next to the zombie.\<close>

definition earlyNear :: game where
  "earlyNear = handleKeyUp ''KeyA'' (handleKeyUp ''KeyW'' (earlyWalkingTo (- 4) (- 4)))"

text \<open>The left mouse button goes down.\<close>

definition earlyStruck :: game where
  "earlyStruck = handleMouseClick 0 earlyNear"

text \<open>300 ms later the hit callback is due.\<close>

definition earlyHitDue :: game where
  "earlyHitDue = earlyStruck\<lparr>now := 300\<rparr>"

text \<open>The hit callback has run.\<close>

definition earlyKilled :: game where
  "earlyKilled = checkHitCallback (earlyHitDue\<lparr>timers := [(1000, AttackEndCallback)]\<rparr>)"

section \<open>Hit range\<close>

lemma distanceTo_le_3: "distanceTo a b \<le> 3 \<longleftrightarrow> distanceToSquared a b \<le> 9"
proof -
  have "sqrt (distanceToSquared a b) \<le> sqrt 9 \<longleftrightarrow> distanceToSquared a b \<le> 9"
    by (rule real_sqrt_le_iff)
  moreover have "sqrt 9 = (3::real)"
    using real_sqrt_abs [of 3] by simp
  ultimately show ?thesis by (simp add: distanceTo_def)
qed

section \<open>The tests protect every dereference\<close>

lemma checkHitE_total [simp]: "checkHitE s = Inr (checkHit s)"
  by (auto simp: checkHitE_def checkHit_def deref_def andThen_def Let_def split: option.splits)

lemma killZombieE_total [simp]: "killZombieE s = Inr (killZombie s)"
  by (auto simp: killZombieE_def killZombie_def onAction_def deref_def andThen_def Let_def
      split: option.splits)

lemma playAnimationE_total [simp]: "playAnimationE n lp s = Inr (playAnimation n lp s)"
  by (auto simp: playAnimationE_def playAnimation_def onAction_def deref_def andThen_def Let_def
      split: option.splits)

lemma checkHitCallbackE_total [simp]: "checkHitCallbackE s = Inr (checkHitCallback s)"
  by (simp add: checkHitCallbackE_def checkHitCallback_def andThen_def)

lemma attackEndCallbackE_total [simp]: "attackEndCallbackE s = Inr (attackEndCallback s)"
  by (simp add: attackEndCallbackE_def attackEndCallback_def Let_def)

section \<open>What each operation leaves alone\<close>

lemma playAnimation_frame [simp]:
  "playerRef (playAnimation n lp s) = playerRef s"
  "keysRef (playAnimation n lp s) = keysRef s"
  "isAttackingRef (playAnimation n lp s) = isAttackingRef s"
  "zombieRef (playAnimation n lp s) = zombieRef s"
  "zombieActionsRef (playAnimation n lp s) = zombieActionsRef s"
  "zombieStateRef (playAnimation n lp s) = zombieStateRef s"
  "glowingOrbRef (playAnimation n lp s) = glowingOrbRef s"
  "showPickupPrompt (playAnimation n lp s) = showPickupPrompt s"
  "sceneOrbs (playAnimation n lp s) = sceneOrbs s"
  "loadedAnimations (playAnimation n lp s) = loadedAnimations s"
  "animationClips (playAnimation n lp s) = animationClips s"
  "loadedCount (playAnimation n lp s) = loadedCount s"
  "zombieAnimations (playAnimation n lp s) = zombieAnimations s"
  "timers (playAnimation n lp s) = timers s"
  "now (playAnimation n lp s) = now s"
  by (simp_all add: playAnimation_def Let_def split: option.splits)

lemma playAnimation_empty [simp]:
  "actionsRef s = Map.empty \<Longrightarrow> playAnimation n lp s = s"
  by (simp add: playAnimation_def)

lemma spawnDue_playAnimation [simp]: "spawnDue (playAnimation n lp s) = spawnDue s"
  by (simp add: spawnDue_def)

lemma consistent_playAnimation: "consistent s \<Longrightarrow> consistent (playAnimation n lp s)"
  unfolding consistent_def by (cases "actionsRef s = Map.empty") (auto)

lemma setTimeout_frame [simp]:
  "timers (setTimeout cb d s) = timers s @ [(now s + d, cb)]"
  "now (setTimeout cb d s) = now s"
  "zombieStateRef (setTimeout cb d s) = zombieStateRef s"
  "glowingOrbRef (setTimeout cb d s) = glowingOrbRef s"
  "zombieRef (setTimeout cb d s) = zombieRef s"
  "sceneOrbs (setTimeout cb d s) = sceneOrbs s"
  "loadedAnimations (setTimeout cb d s) = loadedAnimations s"
  "actionsRef (setTimeout cb d s) = actionsRef s"
  "currentActionRef (setTimeout cb d s) = currentActionRef s"
  "isAttackingRef (setTimeout cb d s) = isAttackingRef s"
  "playerRef (setTimeout cb d s) = playerRef s"
  by (simp_all add: setTimeout_def)

lemma consistent_handleMouseClick: "consistent s \<Longrightarrow> consistent (handleMouseClick b s)"
  unfolding consistent_def handleMouseClick_def
  by (cases "actionsRef s = Map.empty") (auto simp: spawnDue_def)

lemma consistent_handleKeyUp: "consistent s \<Longrightarrow> consistent (handleKeyUp c s)"
  unfolding consistent_def handleKeyUp_def by (simp add: spawnDue_def)

lemma checkOrbProximity_None: "glowingOrbRef s = None \<Longrightarrow> \<not> checkOrbProximity s"
  by (simp add: checkOrbProximity_def split: option.splits)

lemma consistent_handleKeyDown: "consistent s \<Longrightarrow> consistent (handleKeyDown c s)"
  unfolding consistent_def handleKeyDown_def pickupOrb_def
  by (auto simp: spawnDue_def Let_def checkOrbProximity_def split: option.splits)

lemma animate_frame [simp]:
  "timers (animate s) = timers s"
  "now (animate s) = now s"
  "zombieStateRef (animate s) = zombieStateRef s"
  "zombieRef (animate s) = zombieRef s"
  "sceneOrbs (animate s) = sceneOrbs s"
  "loadedAnimations (animate s) = loadedAnimations s"
  "isAttackingRef (animate s) = isAttackingRef s"
  "keysRef (animate s) = keysRef s"
  "(glowingOrbRef (animate s) = None) = (glowingOrbRef s = None)"
  by (simp_all add: animate_def animateOrb_def Let_def split: option.splits)

lemma animate_actions_empty:
  "actionsRef s = Map.empty \<Longrightarrow>
     actionsRef (animate s) = Map.empty \<and> currentActionRef (animate s) = currentActionRef s"
  by (simp add: animate_def animateOrb_def Let_def split: option.splits)

lemma consistent_animate: "consistent s \<Longrightarrow> consistent (animate s)"
  unfolding consistent_def using animate_actions_empty [of s]
  by (auto simp: spawnDue_def)

lemma setupAnimations_frame [simp]:
  "timers (setupAnimations cs s) = timers s"
  "now (setupAnimations cs s) = now s"
  "zombieStateRef (setupAnimations cs s) = zombieStateRef s"
  "zombieRef (setupAnimations cs s) = zombieRef s"
  "glowingOrbRef (setupAnimations cs s) = glowingOrbRef s"
  "sceneOrbs (setupAnimations cs s) = sceneOrbs s"
  "loadedAnimations (setupAnimations cs s) = loadedAnimations s"
  "isAttackingRef (setupAnimations cs s) = isAttackingRef s"
  "playerRef (setupAnimations cs s) = playerRef s"
  by (simp_all add: setupAnimations_def Let_def split: option.splits)

lemma consistent_loadAnimation: "consistent s \<Longrightarrow> consistent (loadAnimation n c s)"
  unfolding consistent_def loadAnimation_def
  by (auto simp: spawnDue_def Let_def)

lemma consistent_zombieIdleLoaded: "consistent s \<Longrightarrow> consistent (zombieIdleLoaded c s)"
  unfolding consistent_def zombieIdleLoaded_def setupZombieAnimations_def
  by (auto simp: spawnDue_def Let_def split: option.splits)

lemma consistent_zombieDeathLoaded: "consistent s \<Longrightarrow> consistent (zombieDeathLoaded c s)"
  unfolding consistent_def zombieDeathLoaded_def setupZombieAnimations_def
  by (auto simp: spawnDue_def Let_def split: option.splits)

lemma consistent_tick: "consistent s \<Longrightarrow> consistent (tick s)"
proof -
  assume c: "consistent s"
  show ?thesis
  proof (cases "due s = []")
    case False
    then show ?thesis using c by (simp add: tick_def)
  next
    case True
    then have "\<forall>t \<in> set (timers s). \<not> fst t \<le> now s"
      by (simp add: due_def filter_empty_conv)
    then have "\<forall>t \<in> set (timers s). now s + 1 \<le> fst t"
      by auto
    then show ?thesis using c True
      by (simp add: tick_def consistent_def spawnDue_def)
  qed
qed

lemma killZombie_frame [simp]:
  "now (killZombie s) = now s"
  "zombieRef (killZombie s) = zombieRef s"
  "glowingOrbRef (killZombie s) = glowingOrbRef s"
  "sceneOrbs (killZombie s) = sceneOrbs s"
  "loadedAnimations (killZombie s) = loadedAnimations s"
  "actionsRef (killZombie s) = actionsRef s"
  "currentActionRef (killZombie s) = currentActionRef s"
  "isAttackingRef (killZombie s) = isAttackingRef s"
  "playerRef (killZombie s) = playerRef s"
  "keysRef (killZombie s) = keysRef s"
  by (simp_all add: killZombie_def Let_def setTimeout_def)

lemma killZombie_dead [simp]: "zombieStateRef (killZombie s) = ''dead''"
  by (simp add: killZombie_def Let_def setTimeout_def)

lemma killZombie_timers:
  "timers (killZombie s) =
     (if zombieStateRef s \<noteq> ''dead'' \<and> zombieRef s \<noteq> None
      then timers s @ [(now s + 2000, CreateOrbCallback)] else timers s)"
  by (simp add: killZombie_def Let_def setTimeout_def)

lemma checkHit_zombie: "checkHit s \<Longrightarrow> zombieRef s \<noteq> None \<and> zombieStateRef s \<noteq> ''dead''"
  by (auto simp: checkHit_def split: option.splits if_splits)

lemma consistent_checkHitCallback: "consistent s \<Longrightarrow> consistent (checkHitCallback s)"
  unfolding checkHitCallback_def
  using checkHit_zombie [of s]
  by (auto simp: consistent_def spawnDue_def killZombie_timers)

lemma attackEndCallback_frame [simp]:
  "timers (attackEndCallback s) = timers s"
  "now (attackEndCallback s) = now s"
  "zombieStateRef (attackEndCallback s) = zombieStateRef s"
  "zombieRef (attackEndCallback s) = zombieRef s"
  "glowingOrbRef (attackEndCallback s) = glowingOrbRef s"
  "sceneOrbs (attackEndCallback s) = sceneOrbs s"
  "loadedAnimations (attackEndCallback s) = loadedAnimations s"
  "playerRef (attackEndCallback s) = playerRef s"
  "keysRef (attackEndCallback s) = keysRef s"
  "isAttackingRef (attackEndCallback s) = False"
  by (simp_all add: attackEndCallback_def Let_def)

lemma attackEndCallback_empty:
  "actionsRef s = Map.empty \<Longrightarrow>
     actionsRef (attackEndCallback s) = Map.empty
     \<and> currentActionRef (attackEndCallback s) = currentActionRef s"
  by (simp add: attackEndCallback_def Let_def)

lemma consistent_attackEndCallback: "consistent s \<Longrightarrow> consistent (attackEndCallback s)"
  unfolding consistent_def using attackEndCallback_empty [of s]
  by (auto simp: spawnDue_def)

lemma due_Cons: "due s = t # ts \<Longrightarrow> t \<in> set (timers s) \<and> fst t \<le> now s"
proof -
  assume "due s = t # ts"
  then have "t \<in> set (filter (\<lambda>t. fst t \<le> now s) (timers s))"
    by (simp add: due_def)
  then show ?thesis by simp
qed

lemma spawnDue_remove1_other:
  "snd t \<noteq> CreateOrbCallback \<Longrightarrow> spawnDue (s\<lparr>timers := remove1 t (timers s)\<rparr>) = spawnDue s"
  by (simp add: spawnDue_def filter_remove1 remove1_idem)

lemma spawnDue_remove1_spawn:
  assumes "t \<in> set (timers s)" and "snd t = CreateOrbCallback" and "length (spawnDue s) \<le> 1"
  shows "spawnDue s = [fst t] \<and> spawnDue (s\<lparr>timers := remove1 t (timers s)\<rparr>) = []"
proof -
  let ?f = "filter (\<lambda>t. snd t = CreateOrbCallback) (timers s)"
  have mem: "t \<in> set ?f" using assms(1,2) by simp
  have len: "length ?f \<le> 1" using assms(3) by (simp add: spawnDue_def)
  have "?f = [t]"
  proof (cases ?f)
    case Nil
    then show ?thesis using mem by simp
  next
    case (Cons u us)
    then have "us = []" using len by simp
    then show ?thesis using mem Cons by simp
  qed
  then show ?thesis by (simp add: spawnDue_def filter_remove1)
qed

lemma consistent_remove1_other:
  "consistent s \<Longrightarrow> snd t \<noteq> CreateOrbCallback \<Longrightarrow>
     consistent (s\<lparr>timers := remove1 t (timers s)\<rparr>)"
  unfolding consistent_def
  by (auto simp: spawnDue_remove1_other dest: notin_set_remove1)

lemma createOrb_consistent:
  assumes c: "consistent s" and t: "t \<in> set (timers s)" and cb: "snd t = CreateOrbCallback"
  shows "\<exists>zombie. zombieRef s = Some zombie
           \<and> createOrbCallback (s\<lparr>timers := remove1 t (timers s)\<rparr>)
               = Inr (createGlowingOrb (position zombie) (s\<lparr>timers := remove1 t (timers s)\<rparr>))
           \<and> consistent (createGlowingOrb (position zombie) (s\<lparr>timers := remove1 t (timers s)\<rparr>))"
proof -
  have len: "length (spawnDue s) \<le> 1" using c by (simp add: consistent_def)
  note sp = spawnDue_remove1_spawn [OF t cb len]
  then have ne: "spawnDue s \<noteq> []" by simp
  then obtain zombie where z: "zombieRef s = Some zombie"
    using c by (auto simp: consistent_def)
  have orb: "glowingOrbRef s = None" and dead: "zombieStateRef s = ''dead''"
    using c ne by (auto simp: consistent_def)
  have tm: "\<forall>u \<in> set (remove1 t (timers s)). now s \<le> fst u"
    using c by (auto simp: consistent_def dest: notin_set_remove1)
  have l6: "loadedAnimations s < 6 \<longrightarrow> actionsRef s = Map.empty \<and> currentActionRef s = ''idle''"
    using c by (simp add: consistent_def)
  have sc: "sceneOrbs s = 0" using c orb by (simp add: consistent_def)
  have sd: "spawnDue (createGlowingOrb (position zombie) (s\<lparr>timers := remove1 t (timers s)\<rparr>)) = []"
    using sp by (simp add: spawnDue_def createGlowingOrb_def Let_def)
  have "consistent (createGlowingOrb (position zombie) (s\<lparr>timers := remove1 t (timers s)\<rparr>))"
    unfolding consistent_def sd using dead tm l6 sc
    by (simp add: createGlowingOrb_def Let_def)
  then show ?thesis using z by (simp add: createOrbCallback_def)
qed

lemma consistent_timeout: "consistent s \<Longrightarrow> \<exists>s'. timeout s = Inr s' \<and> consistent s'"
proof -
  assume c: "consistent s"
  show ?thesis
  proof (cases "due s")
    case Nil
    then show ?thesis using c by (simp add: timeout_def)
  next
    case (Cons t ts)
    note d = due_Cons [OF Cons]
    show ?thesis
    proof (cases "snd t")
      case CheckHitCallback
      then show ?thesis using Cons c
        by (simp add: timeout_def consistent_checkHitCallback consistent_remove1_other)
    next
      case AttackEndCallback
      then show ?thesis using Cons c
        by (simp add: timeout_def consistent_attackEndCallback consistent_remove1_other)
    next
      case CreateOrbCallback
      then show ?thesis using Cons createOrb_consistent [OF c _ CreateOrbCallback] d
        by (auto simp: timeout_def)
    qed
  qed
qed

lemma stopAllAction_empty [simp]: "stopAllAction Map.empty = Map.empty"
  by (simp add: stopAllAction_def)

lemma cleanup_frame [simp]:
  "playerRef (cleanup s) = playerRef s"
  "keysRef (cleanup s) = keysRef s"
  "currentActionRef (cleanup s) = currentActionRef s"
  "isAttackingRef (cleanup s) = isAttackingRef s"
  "zombieRef (cleanup s) = zombieRef s"
  "zombieStateRef (cleanup s) = zombieStateRef s"
  "glowingOrbRef (cleanup s) = glowingOrbRef s"
  "sceneOrbs (cleanup s) = sceneOrbs s"
  "loadedAnimations (cleanup s) = loadedAnimations s"
  "timers (cleanup s) = timers s"
  "now (cleanup s) = now s"
  "actionsRef (cleanup s) = stopAllAction (actionsRef s)"
  by (simp_all add: cleanup_def)

lemma spawnDue_cleanup [simp]: "spawnDue (cleanup s) = spawnDue s"
  by (simp add: spawnDue_def)

lemma consistent_cleanup: "consistent s \<Longrightarrow> consistent (cleanup s)"
  unfolding consistent_def by auto

lemma consistent_init: "consistent (init t0)"
  by (simp add: consistent_def init_def spawnDue_def)

lemma consistent_step: "consistent s \<Longrightarrow> \<exists>s'. step e s = Inr s' \<and> consistent s'"
  by (cases e)
    (simp_all add: consistent_handleKeyDown consistent_handleKeyUp consistent_handleMouseClick
      consistent_animate consistent_loadAnimation consistent_zombieIdleLoaded
      consistent_zombieDeathLoaded consistent_timeout consistent_tick consistent_cleanup)

lemma reachable_consistent: "reachable s \<Longrightarrow> consistent s"
proof (induction rule: reachable.induct)
  case (reachable_init t0)
  show ?case by (rule consistent_init)
next
  case (reachable_step s e s')
  then show ?case using consistent_step [of s e] by auto
qed

lemma checkOrbProximity_keys [simp]:
  "checkOrbProximity (s\<lparr>keysRef := k\<rparr>) = checkOrbProximity s"
  by (simp add: checkOrbProximity_def split: option.splits)

lemma quiet_events:
  "zombieStateRef (handleKeyUp c s) = zombieStateRef s"
  "spawnDue (handleKeyUp c s) = spawnDue s"
  "glowingOrbRef (handleKeyUp c s) = glowingOrbRef s"
  "zombieStateRef (handleMouseClick b s) = zombieStateRef s"
  "spawnDue (handleMouseClick b s) = spawnDue s"
  "glowingOrbRef (handleMouseClick b s) = glowingOrbRef s"
  "spawnDue (animate s) = spawnDue s"
  "zombieStateRef (loadAnimation n h s) = zombieStateRef s"
  "spawnDue (loadAnimation n h s) = spawnDue s"
  "glowingOrbRef (loadAnimation n h s) = glowingOrbRef s"
  "zombieStateRef (zombieIdleLoaded h s) = zombieStateRef s"
  "spawnDue (zombieIdleLoaded h s) = spawnDue s"
  "glowingOrbRef (zombieIdleLoaded h s) = glowingOrbRef s"
  "zombieStateRef (zombieDeathLoaded h s) = zombieStateRef s"
  "spawnDue (zombieDeathLoaded h s) = spawnDue s"
  "glowingOrbRef (zombieDeathLoaded h s) = glowingOrbRef s"
  "zombieStateRef (tick s) = zombieStateRef s"
  "spawnDue (tick s) = spawnDue s"
  "glowingOrbRef (tick s) = glowingOrbRef s"
  "zombieStateRef (handleKeyDown c s) = zombieStateRef s"
  "spawnDue (handleKeyDown c s) = spawnDue s"
  "spawnDue (attackEndCallback s) = spawnDue s"
  by (simp_all add: handleKeyUp_def handleMouseClick_def spawnDue_def loadAnimation_def
      zombieIdleLoaded_def zombieDeathLoaded_def setupZombieAnimations_def tick_def
      handleKeyDown_def pickupOrb_def Let_def split: option.splits)

lemma keyDown_effect:
  "effectOf (KeyDown c) s (handleKeyDown c s) Quiet \<or> effectOf (KeyDown c) s (handleKeyDown c s) Collect"
  by (auto simp: effectOf_def spawnDue_def handleKeyDown_def pickupOrb_def Let_def
      checkOrbProximity_None split: option.splits)

lemma checkHit_timers [simp]: "checkHit (s\<lparr>timers := ts\<rparr>) = checkHit s"
  by (simp add: checkHit_def split: option.splits)

lemma timeout_effect:
  assumes c: "consistent s" and st: "timeout s = Inr s'"
  shows "effectOf Timeout s s' Quiet \<or> effectOf Timeout s s' Kill \<or> effectOf Timeout s s' Spawn"
proof (cases "due s")
  case Nil
  then show ?thesis using st by (simp add: timeout_def effectOf_def)
next
  case (Cons t ts)
  note d = due_Cons [OF Cons]
  let ?s0 = "s\<lparr>timers := remove1 t (timers s)\<rparr>"
  show ?thesis
  proof (cases "snd t")
    case AttackEndCallback
    then have "s' = attackEndCallback ?s0" using st Cons by (simp add: timeout_def)
    then show ?thesis using AttackEndCallback
      by (simp add: effectOf_def quiet_events spawnDue_remove1_other)
  next
    case CheckHitCallback
    then have s': "s' = checkHitCallback ?s0" using st Cons by (simp add: timeout_def)
    have sd: "spawnDue ?s0 = spawnDue s"
      using CheckHitCallback by (simp add: spawnDue_remove1_other)
    show ?thesis
    proof (cases "checkHit s")
      case False
      then show ?thesis using s' sd by (simp add: checkHitCallback_def effectOf_def)
    next
      case True
      note z = checkHit_zombie [OF True]
      then have "spawnDue s = []" and "glowingOrbRef s = None"
        using c by (auto simp: consistent_def)
      then have "effectOf Timeout s s' Kill"
        using s' sd z True
        by (simp add: checkHitCallback_def effectOf_def spawnDue_def killZombie_timers)
      then show ?thesis by simp
    qed
  next
    case CreateOrbCallback
    have len: "length (spawnDue s) \<le> 1" using c by (simp add: consistent_def)
    from d have tin: "t \<in> set (timers s)" and tle: "fst t \<le> now s" by simp_all
    note sp = spawnDue_remove1_spawn [OF tin CreateOrbCallback len]
    have "now s \<le> fst t" using c tin by (simp add: consistent_def)
    then have nd: "fst t = now s" using tle by simp
    have orb: "glowingOrbRef s = None" using c sp by (auto simp: consistent_def)
    obtain zombie where z: "zombieRef s = Some zombie"
      and r: "createOrbCallback ?s0 = Inr (createGlowingOrb (position zombie) ?s0)"
      using createOrb_consistent [OF c tin CreateOrbCallback] by blast
    have s': "s' = createGlowingOrb (position zombie) ?s0"
      using st Cons CreateOrbCallback r by (simp add: timeout_def)
    have "spawnDue s' = []"
      using sp s' by (simp add: spawnDue_def createGlowingOrb_def Let_def)
    then have "effectOf Timeout s s' Spawn"
      using sp nd orb z s' by (simp add: effectOf_def createGlowingOrb_def Let_def orbAt_def)
    then show ?thesis by simp
  qed
qed

lemma step_effect:
  assumes c: "consistent s" and st: "step e s = Inr s'"
  shows "\<exists>k. effectOf e s s' k"
proof (cases e)
  case (KeyDown code)
  then show ?thesis using st keyDown_effect [of code s] by auto
next
  case Timeout
  then show ?thesis using st timeout_effect [OF c] by auto
qed (use st in \<open>auto simp: effectOf_def quiet_events intro!: exI [of _ Quiet]\<close>)

lemma timeout_zombieState:
  "timeout s = Inr s' \<Longrightarrow> zombieStateRef s' = zombieStateRef s \<or> zombieStateRef s' = ''dead''"
proof (cases "due s")
  case Nil
  assume "timeout s = Inr s'"
  then show ?thesis using Nil by (simp add: timeout_def)
next
  case (Cons t ts)
  assume "timeout s = Inr s'"
  then show ?thesis using Cons
    by (cases "snd t")
      (auto simp: timeout_def checkHitCallback_def createOrbCallback_def createGlowingOrb_def
        Let_def split: option.splits if_splits)
qed

lemma step_zombieState:
  "step e s = Inr s' \<Longrightarrow> zombieStateRef s' = zombieStateRef s \<or> zombieStateRef s' = ''dead''"
  by (cases e) (auto simp: quiet_events dest: timeout_zombieState)

lemma dead_no_transitions:
  "zombieStateRef s = ''dead'' \<Longrightarrow> zombieTransitions es s = 0"
proof (induction es arbitrary: s)
  case Nil
  show ?case by simp
next
  case (Cons e es)
  show ?case
  proof (cases "step e s")
    case (Inl err)
    then show ?thesis by simp
  next
    case (Inr s')
    then have "zombieStateRef s' = ''dead''"
      using step_zombieState [OF Inr] Cons.prems by auto
    then show ?thesis using Inr Cons by simp
  qed
qed

lemma transitions_le_1: "zombieTransitions es s \<le> 1"
proof (induction es arbitrary: s)
  case Nil
  show ?case by simp
next
  case (Cons e es)
  show ?case
  proof (cases "step e s")
    case (Inl err)
    then show ?thesis by simp
  next
    case (Inr s')
    show ?thesis
    proof (cases "zombieStateRef s' = zombieStateRef s")
      case True
      then show ?thesis using Inr Cons.IH [of s'] by simp
    next
      case False
      then have "zombieStateRef s' = ''dead''" using step_zombieState [OF Inr] by simp
      then have "zombieTransitions es s' = 0" by (rule dead_no_transitions)
      then show ?thesis using Inr by simp
    qed
  qed
qed

lemma run_dead:
  "zombieStateRef s = ''dead'' \<Longrightarrow> run es s = Inr s' \<Longrightarrow> zombieStateRef s' = ''dead''"
proof (induction es arbitrary: s)
  case Nil
  then show ?case by simp
next
  case (Cons e es)
  then obtain s1 where s1: "step e s = Inr s1" and r: "run es s1 = Inr s'"
    by (auto split: sum.splits)
  have "zombieStateRef s1 = ''dead''" using step_zombieState [OF s1] Cons.prems(1) by auto
  then show ?case using Cons.IH r by blast
qed

section \<open>Runs, reachability and the attack window\<close>

lemma run_append: "run (es @ fs) s = (case run es s of Inl err \<Rightarrow> Inl err | Inr s' \<Rightarrow> run fs s')"
  by (induction es arbitrary: s) (auto split: sum.splits)

lemma reachable_run: "reachable s \<Longrightarrow> run es s = Inr s' \<Longrightarrow> reachable s'"
proof (induction es arbitrary: s)
  case Nil
  then show ?case by simp
next
  case (Cons e es)
  then obtain s1 where s1: "step e s = Inr s1" and r: "run es s1 = Inr s'"
    by (auto split: sum.splits)
  have "reachable s1" using Cons.prems(1) s1 by (rule reachable_step)
  then show ?case using Cons.IH r by blast
qed

lemma reachable_iff_run: "reachable s \<longleftrightarrow> (\<exists>t0 es. run es (init t0) = Inr s)"
proof
  assume "reachable s"
  then show "\<exists>t0 es. run es (init t0) = Inr s"
  proof (induction rule: reachable.induct)
    case (reachable_init t0)
    have "run [] (init t0) = Inr (init t0)" by simp
    then show ?case by blast
  next
    case (reachable_step s e s')
    then obtain t0 es where "run es (init t0) = Inr s" by blast
    then have "run (es @ [e]) (init t0) = Inr s'"
      using reachable_step.hyps(2) by (simp add: run_append)
    then show ?case by blast
  qed
next
  assume "\<exists>t0 es. run es (init t0) = Inr s"
  then obtain t0 es where "run es (init t0) = Inr s" by blast
  then show "reachable s" using reachable_init reachable_run by blast
qed

lemma run_ticks:
  "\<forall>t \<in> set (timers s). now s + n \<le> fst t \<Longrightarrow>
     run (replicate n Tick) s = Inr (s\<lparr>now := now s + n\<rparr>)"
proof (induction n arbitrary: s)
  case 0
  then show ?case by simp
next
  case (Suc n)
  have "due s = []" using Suc.prems by (auto simp: due_def filter_empty_conv)
  then have t: "tick s = s\<lparr>now := now s + 1\<rparr>" by (simp add: tick_def)
  have "run (replicate n Tick) (s\<lparr>now := now s + 1\<rparr>)
          = Inr (s\<lparr>now := now s + 1\<rparr>\<lparr>now := now (s\<lparr>now := now s + 1\<rparr>) + n\<rparr>)"
    using Suc.prems by (intro Suc.IH) auto
  then show ?case using t by simp
qed

lemma spawnDue_mem: "spawnDue s = [d] \<Longrightarrow> (d, CreateOrbCallback) \<in> set (timers s)"
proof -
  assume "spawnDue s = [d]"
  then have "d \<in> set (map fst (filter (\<lambda>t. snd t = CreateOrbCallback) (timers s)))"
    by (simp add: spawnDue_def)
  then show ?thesis by auto
qed

lemma makeActions_snoc: "makeActions (cs @ [c]) = (makeActions cs)(c \<mapsto> clipAction)"
  by (simp add: makeActions_def)

lemma makeActions_lookup:
  "makeActions cs n = (if n \<in> set cs then Some clipAction else None)"
proof (induction cs rule: rev_induct)
  case Nil
  show ?case by (simp add: makeActions_def)
next
  case (snoc c cs)
  then show ?case by (simp add: makeActions_snoc)
qed

lemma reachable_frames: "reachable s \<Longrightarrow> reachable ((animate ^^ n) s)"
proof (induction n)
  case 0
  then show ?case by simp
next
  case (Suc n)
  have "step AnimationFrame ((animate ^^ n) s) = Inr ((animate ^^ Suc n) s)" by simp
  then show ?case using Suc reachable_step by blast
qed

lemma reachable_handlers:
  "reachable s \<Longrightarrow> reachable (handleKeyDown c s)"
  "reachable s \<Longrightarrow> reachable (handleKeyUp c s)"
  "reachable s \<Longrightarrow> reachable (handleMouseClick b s)"
  "reachable s \<Longrightarrow> reachable (animate s)"
  "reachable s \<Longrightarrow> reachable (loadAnimation n h s)"
  "reachable s \<Longrightarrow> reachable (zombieIdleLoaded h s)"
  "reachable s \<Longrightarrow> reachable (zombieDeathLoaded h s)"
  "reachable s \<Longrightarrow> reachable (tick s)"
proof -
  assume r: "reachable s"
  show "reachable (handleKeyDown c s)"
    by (rule reachable_step [OF r, of "KeyDown c"]) simp
  show "reachable (handleKeyUp c s)"
    by (rule reachable_step [OF r, of "KeyUp c"]) simp
  show "reachable (handleMouseClick b s)"
    by (rule reachable_step [OF r, of "MouseDown b"]) simp
  show "reachable (animate s)"
    by (rule reachable_step [OF r, of AnimationFrame]) simp
  show "reachable (loadAnimation n h s)"
    by (rule reachable_step [OF r, of "AnimationLoaded n h"]) simp
  show "reachable (zombieIdleLoaded h s)"
    by (rule reachable_step [OF r, of "ZombieIdleLoaded h"]) simp
  show "reachable (zombieDeathLoaded h s)"
    by (rule reachable_step [OF r, of "ZombieDeathLoaded h"]) simp
  show "reachable (tick s)"
    by (rule reachable_step [OF r, of Tick]) simp
qed

lemma handleMouseClick_timers:
  "\<not> isAttackingRef s \<Longrightarrow>
     timers (handleMouseClick 0 s)
       = timers s @ [(now s + 300, CheckHitCallback), (now s + 1000, AttackEndCallback)]
     \<and> isAttackingRef (handleMouseClick 0 s) \<and> now (handleMouseClick 0 s) = now s"
  by (simp add: handleMouseClick_def)

lemma pressed_isAttacking [simp]: "pressed (s\<lparr>isAttackingRef := b\<rparr>) k = pressed s k"
  by (simp add: pressed_def)

lemma attackEndCallback_resume:
  "attackEndCallback s = playAnimation (spec_resumeState s) True (s\<lparr>isAttackingRef := False\<rparr>)"
  by (simp add: attackEndCallback_def spec_resumeState_def Let_def)

lemma playAnimation_current:
  "actionsRef s n \<noteq> None \<Longrightarrow> currentActionRef (playAnimation n lp s) = n"
  by (auto simp: playAnimation_def Let_def split: option.splits)

lemma animate_attacking:
  "isAttackingRef s \<Longrightarrow>
     currentActionRef (animate s) = currentActionRef s \<and> playerRef (animate s) = playerRef s
     \<and> actionsRef (animate s) = actionsRef s"
  by (simp add: animate_def animateOrb_def movement_def Let_def split: option.splits)

lemma handleKeyDown_player:
  "currentActionRef (handleKeyDown c s) = currentActionRef s"
  "playerRef (handleKeyDown c s) = playerRef s"
  "isAttackingRef (handleKeyDown c s) = isAttackingRef s"
  "actionsRef (handleKeyDown c s) = actionsRef s"
  by (simp_all add: handleKeyDown_def pickupOrb_def Let_def split: option.splits)

lemma loadAnimation_attacking:
  assumes "consistent s"
  shows "currentActionRef (loadAnimation n h s) = currentActionRef s"
    and "playerRef (loadAnimation n h s) = playerRef s"
    and "isAttackingRef (loadAnimation n h s) = isAttackingRef s"
proof -
  have "loadedAnimations s < 6 \<longrightarrow> currentActionRef s = ''idle''"
    using assms by (simp add: consistent_def)
  then show "currentActionRef (loadAnimation n h s) = currentActionRef s"
    by (auto simp: loadAnimation_def setupAnimations_def Let_def split: option.splits)
  show "playerRef (loadAnimation n h s) = playerRef s"
    and "isAttackingRef (loadAnimation n h s) = isAttackingRef s"
    by (simp_all add: loadAnimation_def Let_def)
qed

lemma zombie_loaded_player:
  "currentActionRef (zombieIdleLoaded h s) = currentActionRef s"
  "playerRef (zombieIdleLoaded h s) = playerRef s"
  "isAttackingRef (zombieIdleLoaded h s) = isAttackingRef s"
  "currentActionRef (zombieDeathLoaded h s) = currentActionRef s"
  "playerRef (zombieDeathLoaded h s) = playerRef s"
  "isAttackingRef (zombieDeathLoaded h s) = isAttackingRef s"
  by (simp_all add: zombieIdleLoaded_def zombieDeathLoaded_def setupZombieAnimations_def
      Let_def split: option.splits)

lemma timeout_attacking:
  assumes st: "timeout s = Inr s'"
    and na: "\<forall>t ts. due s = t # ts \<longrightarrow> snd t \<noteq> AttackEndCallback"
  shows "isAttackingRef s' = isAttackingRef s \<and> currentActionRef s' = currentActionRef s
     \<and> playerRef s' = playerRef s"
proof (cases "due s")
  case Nil
  then show ?thesis using st by (simp add: timeout_def)
next
  case (Cons t ts)
  then have "snd t \<noteq> AttackEndCallback" using na by simp
  then show ?thesis using st Cons
    by (cases "snd t")
      (auto simp: timeout_def checkHitCallback_def createOrbCallback_def createGlowingOrb_def
        Let_def split: option.splits if_splits)
qed

lemma step_attacking:
  assumes c: "consistent s" and a: "isAttackingRef s" and st: "step e s = Inr s'"
    and na: "e = Timeout \<longrightarrow> (\<forall>t ts. due s = t # ts \<longrightarrow> snd t \<noteq> AttackEndCallback)"
  shows "isAttackingRef s' \<and> currentActionRef s' = currentActionRef s \<and> playerRef s' = playerRef s"
proof (cases e)
  case Timeout
  then show ?thesis using timeout_attacking [of s s'] st na a by simp
next
  case (AnimationLoaded n h)
  then show ?thesis using loadAnimation_attacking [OF c, of n h] st a by auto
next
  case AnimationFrame
  then show ?thesis using animate_attacking [OF a] st a by auto
qed (use st a in \<open>auto simp: handleKeyDown_player handleKeyUp_def handleMouseClick_def
      zombie_loaded_player tick_def\<close>)

lemma reachable_ticks:
  assumes "reachable s" and "\<forall>t \<in> set (timers s). now s + n \<le> fst t"
  shows "reachable (s\<lparr>now := now s + n\<rparr>)"
  using reachable_run [OF assms(1) run_ticks [OF assms(2)]] .

lemma pressed_handleKeyDown:
  "pressed (handleKeyDown c s) k = (if k = c then True else pressed s k)"
  by (simp add: pressed_def handleKeyDown_def pickupOrb_def Let_def split: option.splits)


lemma unclamped_actions: "actionsRef s' = actionsRef s \<Longrightarrow> unclamped s \<Longrightarrow> unclamped s'"
  by (simp add: unclamped_def)

lemma playAnimation_clamp:
  "map_option clampWhenFinished (actionsRef (playAnimation n lp s) m)
     = map_option clampWhenFinished (actionsRef s m)"
  by (auto simp: playAnimation_def Let_def fadeOut_def fadeIn_def reset_def setLoop_def play_def
      split: option.splits)

lemma unclamped_playAnimation: "unclamped s \<Longrightarrow> unclamped (playAnimation n lp s)"
proof -
  assume u: "unclamped s"
  have "\<not> clampWhenFinished a" if a: "actionsRef (playAnimation n lp s) m = Some a" for m a
  proof -
    have "map_option clampWhenFinished (actionsRef s m) = Some (clampWhenFinished a)"
      using playAnimation_clamp [of n lp s m] a by simp
    then obtain b where "actionsRef s m = Some b" and "clampWhenFinished b = clampWhenFinished a"
      by auto
    then show ?thesis using u by (auto simp: unclamped_def)
  qed
  then show ?thesis by (simp add: unclamped_def)
qed

lemma animateOrb_frame:
  "actionsRef (animateOrb s) = actionsRef s"
  "playerRef (animateOrb s) = playerRef s"
  by (simp_all add: animateOrb_def Let_def split: option.splits)

lemma animate_actions:
  "actionsRef (animate s) = actionsRef s
   \<or> (\<exists>n s0. actionsRef s0 = actionsRef s \<and> actionsRef (animate s) = actionsRef (playAnimation n True s0))"
proof (cases "playerRef (animateOrb s)")
  case None
  then show ?thesis by (simp add: animate_def animateOrb_frame)
next
  case (Some player)
  define s2 where "s2 = (animateOrb s)\<lparr>playerRef := Some (player\<lparr>position
      := fst (movement (animateOrb s) (position player))\<rparr>)\<rparr>"
  have a2: "actionsRef s2 = actionsRef s"
    by (simp add: s2_def animateOrb_frame)
  have "actionsRef (animate s) = actionsRef s2
      \<or> (\<exists>n. actionsRef (animate s) = actionsRef (playAnimation n True s2))"
    using Some by (auto simp: animate_def Let_def s2_def)
  then show ?thesis using a2 by auto
qed

lemma unclamped_animate: "unclamped s \<Longrightarrow> unclamped (animate s)"
proof -
  assume u: "unclamped s"
  from animate_actions [of s] show ?thesis
  proof
    assume "actionsRef (animate s) = actionsRef s"
    then show ?thesis using u by (rule unclamped_actions)
  next
    assume "\<exists>n s0. actionsRef s0 = actionsRef s
        \<and> actionsRef (animate s) = actionsRef (playAnimation n True s0)"
    then obtain n s0 where s0: "actionsRef s0 = actionsRef s"
      and a: "actionsRef (animate s) = actionsRef (playAnimation n True s0)" by blast
    have "unclamped s0" using s0 u by (rule unclamped_actions)
    then have "unclamped (playAnimation n True s0)" by (rule unclamped_playAnimation)
    then show ?thesis using a by (simp add: unclamped_def)
  qed
qed

lemma unclamped_setupAnimations: "unclamped (setupAnimations cs s)"
  by (auto simp: unclamped_def setupAnimations_def Let_def makeActions_lookup clipAction_def
      play_def split: option.splits if_splits)

lemma unclamped_loadAnimation: "unclamped s \<Longrightarrow> unclamped (loadAnimation n h s)"
  by (auto simp: loadAnimation_def Let_def unclamped_setupAnimations intro: unclamped_actions [rotated])

lemma unclamped_timeout: "unclamped s \<Longrightarrow> timeout s = Inr s' \<Longrightarrow> unclamped s'"
proof (cases "due s")
  case Nil
  assume "unclamped s" "timeout s = Inr s'"
  then show ?thesis using Nil by (simp add: timeout_def)
next
  case (Cons t ts)
  assume u: "unclamped s" and st: "timeout s = Inr s'"
  let ?s0 = "s\<lparr>timers := remove1 t (timers s)\<rparr>"
  have u0: "unclamped ?s0" using u by (simp add: unclamped_def)
  show ?thesis
  proof (cases "snd t")
    case CheckHitCallback
    then have "actionsRef s' = actionsRef ?s0"
      using st Cons by (auto simp: timeout_def checkHitCallback_def split: if_splits)
    then show ?thesis using u0 by (rule unclamped_actions)
  next
    case AttackEndCallback
    then have "s' = playAnimation (spec_resumeState ?s0) True (?s0\<lparr>isAttackingRef := False\<rparr>)"
      using st Cons by (simp add: timeout_def attackEndCallback_resume)
    moreover have "unclamped (?s0\<lparr>isAttackingRef := False\<rparr>)"
      using u by (simp add: unclamped_def)
    ultimately show ?thesis by (simp add: unclamped_playAnimation)
  next
    case CreateOrbCallback
    then have "actionsRef s' = actionsRef ?s0"
      using st Cons
      by (auto simp: timeout_def createOrbCallback_def createGlowingOrb_def Let_def
          split: option.splits)
    then show ?thesis using u0 by (rule unclamped_actions)
  qed
qed

lemma unclamped_handleMouseClick: "unclamped s \<Longrightarrow> unclamped (handleMouseClick b s)"
proof -
  assume u: "unclamped s"
  then have "unclamped (s\<lparr>isAttackingRef := True\<rparr>)" by (simp add: unclamped_def)
  then have "unclamped (playAnimation ''attack'' False (s\<lparr>isAttackingRef := True\<rparr>))"
    by (rule unclamped_playAnimation)
  then show ?thesis using u by (simp add: handleMouseClick_def unclamped_def)
qed

lemma zombie_loaded_actions:
  "actionsRef (zombieIdleLoaded h s) = actionsRef s"
  "actionsRef (zombieDeathLoaded h s) = actionsRef s"
  by (simp_all add: zombieIdleLoaded_def zombieDeathLoaded_def setupZombieAnimations_def
      Let_def split: option.splits)

lemma unclamped_step: "unclamped s \<Longrightarrow> step e s = Inr s' \<Longrightarrow> unclamped s'"
proof (cases e)
  case Timeout
  assume "unclamped s" "step e s = Inr s'"
  then show ?thesis using Timeout unclamped_timeout [of s s'] by simp
next
  case AnimationFrame
  assume "unclamped s" "step e s = Inr s'"
  then show ?thesis using AnimationFrame unclamped_animate [of s] by auto
next
  case (MouseDown b)
  assume "unclamped s" "step e s = Inr s'"
  then show ?thesis using MouseDown unclamped_handleMouseClick [of s b] by auto
next
  case (AnimationLoaded n h)
  assume "unclamped s" "step e s = Inr s'"
  then show ?thesis using AnimationLoaded unclamped_loadAnimation [of s n h] by auto
next
  case (KeyDown c)
  assume "unclamped s" "step e s = Inr s'"
  then show ?thesis using KeyDown by (auto simp: unclamped_def handleKeyDown_player)
next
  case (KeyUp c)
  assume "unclamped s" "step e s = Inr s'"
  then show ?thesis using KeyUp by (auto simp: unclamped_def handleKeyUp_def)
next
  case (ZombieIdleLoaded h)
  assume "unclamped s" "step e s = Inr s'"
  then show ?thesis using ZombieIdleLoaded
    by (auto simp: unclamped_def zombie_loaded_actions)
next
  case (ZombieDeathLoaded h)
  assume "unclamped s" "step e s = Inr s'"
  then show ?thesis using ZombieDeathLoaded
    by (auto simp: unclamped_def zombie_loaded_actions)
next
  case Tick
  assume "unclamped s" "step e s = Inr s'"
  then show ?thesis using Tick by (auto simp: unclamped_def tick_def split: if_splits)
next
  case Cleanup
  assume "unclamped s" "step e s = Inr s'"
  then show ?thesis using Cleanup
    by (auto simp: unclamped_def stopAllAction_def stop_def reset_def)
qed

lemma reachable_unclamped: "reachable s \<Longrightarrow> unclamped s"
proof (induction rule: reachable.induct)
  case (reachable_init t0)
  show ?case by (simp add: unclamped_def init_def)
next
  case (reachable_step s e s')
  then show ?case using unclamped_step by blast
qed

lemma killZombie_death:
  "zombieStateRef s \<noteq> ''dead'' \<Longrightarrow> zombieActionsRef s ''zombieDeath'' = Some death \<Longrightarrow>
     zombieActionsRef (killZombie s) ''zombieDeath''
       = Some (play ((setLoop LoopOnce 1 (fadeIn 0.2 (reset death)))\<lparr>clampWhenFinished := True\<rparr>))"
  by (simp add: killZombie_def Let_def setTimeout_def split: option.splits)

lemma playAnimation_started:
  "actionsRef s name = Some target \<Longrightarrow> currentActionRef s \<noteq> name \<Longrightarrow>
     actionsRef (playAnimation name lp s) name
       = Some (play (setLoop (if lp then LoopRepeat else LoopOnce) \<infinity> (fadeIn 0.2 (reset target))))"
  by (simp add: playAnimation_def Let_def split: option.splits)

lemma timeout_other:
  assumes c: "consistent s" and d: "due s = t # ts" and cb: "snd t \<noteq> CreateOrbCallback"
    and dead: "zombieStateRef s = ''dead''"
  shows "\<exists>s'. timeout s = Inr s' \<and> consistent s' \<and> now s' = now s
           \<and> timers s' = remove1 t (timers s) \<and> spawnDue s' = spawnDue s
           \<and> zombieRef s' = zombieRef s"
proof -
  let ?s0 = "s\<lparr>timers := remove1 t (timers s)\<rparr>"
  have c0: "consistent ?s0" using c cb by (rule consistent_remove1_other)
  have sd: "spawnDue ?s0 = spawnDue s" using cb by (rule spawnDue_remove1_other)
  show ?thesis
  proof (cases "snd t")
    case CheckHitCallback
    have "\<not> checkHit ?s0" using dead checkHit_zombie [of ?s0] by auto
    then have "timeout s = Inr ?s0"
      using d CheckHitCallback by (simp add: timeout_def checkHitCallback_def)
    then show ?thesis using c0 sd by simp
  next
    case AttackEndCallback
    then have "timeout s = Inr (attackEndCallback ?s0)"
      using d by (simp add: timeout_def)
    then show ?thesis using consistent_attackEndCallback [OF c0] sd
      by (simp add: quiet_events)
  next
    case CreateOrbCallback
    then show ?thesis using cb by simp
  qed
qed

lemma spawn_happens:
  assumes "consistent s" and "spawnDue s = [d]"
  shows "\<exists>es s' zombie. set es \<subseteq> {Timeout, Tick} \<and> run es s = Inr s' \<and> now s' = d
           \<and> spawnDue s' = [] \<and> zombieRef s = Some zombie
           \<and> glowingOrbRef s' = Some (orbAt (position zombie))"
  using assms
proof (induction "(d - now s) + length (timers s)" arbitrary: s rule: less_induct)
  case less
  note c = less.prems(1) and sd = less.prems(2)
  have mem: "(d, CreateOrbCallback) \<in> set (timers s)" using sd by (rule spawnDue_mem)
  have le: "now s \<le> d" using c mem by (auto simp: consistent_def)
  have dead: "zombieStateRef s = ''dead''" using c sd by (auto simp: consistent_def)
  show ?case
  proof (cases "due s")
    case Nil
    then have "\<not> d \<le> now s" using mem by (auto simp: due_def filter_empty_conv)
    then have lt: "now s < d" by simp
    have t: "tick s = s\<lparr>now := now s + 1\<rparr>" using Nil by (simp add: tick_def)
    have c1: "consistent (tick s)" using c by (rule consistent_tick)
    have sd1: "spawnDue (tick s) = [d]" using sd by (simp add: quiet_events)
    have "(d - now (tick s)) + length (timers (tick s)) < (d - now s) + length (timers s)"
      using lt t by simp
    from less.hyps [OF this c1 sd1]
    obtain es s' zombie where es: "set es \<subseteq> {Timeout, Tick}" "run es (tick s) = Inr s'"
      "now s' = d" "spawnDue s' = []" "zombieRef (tick s) = Some zombie"
      "glowingOrbRef s' = Some (orbAt (position zombie))" by blast
    have "set (Tick # es) \<subseteq> {Timeout, Tick}" using es(1) by simp
    moreover have "run (Tick # es) s = Inr s'" using es(2) by simp
    moreover have "zombieRef s = Some zombie" using es(5) t by simp
    ultimately show ?thesis using es(3,4,6) by blast
  next
    case (Cons t ts)
    note dc = due_Cons [OF Cons]
    show ?thesis
    proof (cases "snd t = CreateOrbCallback")
      case True
      have len: "length (spawnDue s) \<le> 1" using sd by simp
      from dc have tin: "t \<in> set (timers s)" and tle: "fst t \<le> now s" by simp_all
      note sp = spawnDue_remove1_spawn [OF tin True len]
      then have "fst t = d" using sd by simp
      then have nd: "now s = d" using tle le by simp
      obtain zombie where z: "zombieRef s = Some zombie"
        and r: "createOrbCallback (s\<lparr>timers := remove1 t (timers s)\<rparr>)
            = Inr (createGlowingOrb (position zombie) (s\<lparr>timers := remove1 t (timers s)\<rparr>))"
        using createOrb_consistent [OF c tin True] by blast
      let ?s' = "createGlowingOrb (position zombie) (s\<lparr>timers := remove1 t (timers s)\<rparr>)"
      have "run [Timeout] s = Inr ?s'" using Cons True r by (simp add: timeout_def)
      moreover have "now ?s' = d" using nd by (simp add: createGlowingOrb_def Let_def)
      moreover have "spawnDue ?s' = []"
        using sp by (simp add: spawnDue_def createGlowingOrb_def Let_def)
      moreover have "glowingOrbRef ?s' = Some (orbAt (position zombie))"
        by (simp add: createGlowingOrb_def Let_def orbAt_def)
      moreover have "set [Timeout] \<subseteq> {Timeout, Tick}" by simp
      ultimately show ?thesis using z by blast
    next
      case False
      obtain s1 where s1: "timeout s = Inr s1" "consistent s1" "now s1 = now s"
        "timers s1 = remove1 t (timers s)" "spawnDue s1 = spawnDue s" "zombieRef s1 = zombieRef s"
        using timeout_other [OF c Cons False dead] by blast
      have "length (remove1 t (timers s)) < length (timers s)"
        using dc by (simp add: length_remove1) (cases "timers s"; simp)
      then have "(d - now s1) + length (timers s1) < (d - now s) + length (timers s)"
        using s1(3,4) by simp
      from less.hyps [OF this s1(2)] sd s1(5)
      obtain es s' zombie where es: "set es \<subseteq> {Timeout, Tick}" "run es s1 = Inr s'"
        "now s' = d" "spawnDue s' = []" "zombieRef s1 = Some zombie"
        "glowingOrbRef s' = Some (orbAt (position zombie))" by auto
      have "set (Timeout # es) \<subseteq> {Timeout, Tick}" using es(1) by simp
      moreover have "run (Timeout # es) s = Inr s'" using es(2) s1(1) by simp
      moreover have "zombieRef s = Some zombie" using es(5) s1(6) by simp
      ultimately show ?thesis using es(3,4,6) by blast
    qed
  qed
qed

lemma distanceTo_le_25: "distanceTo a b \<le> 2.5 \<longleftrightarrow> distanceToSquared a b \<le> 6.25"
proof -
  have r: "sqrt 6.25 = (2.5::real)"
    by (rule real_sqrt_unique) (simp_all add: power2_eq_square)
  have "sqrt (distanceToSquared a b) \<le> sqrt 6.25 \<longleftrightarrow> distanceToSquared a b \<le> 6.25"
    by (rule real_sqrt_le_iff)
  then show ?thesis unfolding distanceTo_def r .
qed

lemma checkOrbProximity_iff:
  "checkOrbProximity s \<longleftrightarrow>
     (\<exists>player orb. playerRef s = Some player \<and> glowingOrbRef s = Some orb
        \<and> distanceTo (position player) (position orb) \<le> 2.5)"
  by (auto simp: checkOrbProximity_def split: option.splits)

lemma collect_removes:
  "checkOrbProximity s \<Longrightarrow>
     glowingOrbRef (handleKeyDown ''KeyE'' s) = None
     \<and> sceneOrbs (handleKeyDown ''KeyE'' s) = sceneOrbs s - 1
     \<and> \<not> showPickupPrompt (handleKeyDown ''KeyE'' s)"
  by (auto simp: handleKeyDown_def pickupOrb_def checkOrbProximity_def split: option.splits)

lemma timeout_refs:
  "timeout s = Inr s' \<Longrightarrow> playerRef s' = playerRef s \<and> zombieRef s' = zombieRef s"
proof (cases "due s")
  case Nil
  assume "timeout s = Inr s'"
  then show ?thesis using Nil by (simp add: timeout_def)
next
  case (Cons t ts)
  assume "timeout s = Inr s'"
  then show ?thesis using Cons
    by (cases "snd t")
      (auto simp: timeout_def checkHitCallback_def createOrbCallback_def createGlowingOrb_def
        Let_def split: option.splits if_splits)
qed

lemma loaders_zombieRef:
  "zombieRef (loadAnimation n h s) = zombieRef s"
  "zombieRef (zombieIdleLoaded h s) \<noteq> None"
  "zombieRef (zombieDeathLoaded h s) = zombieRef s"
  "zombieRef (handleKeyDown c s) = zombieRef s"
  "zombieRef (handleKeyUp c s) = zombieRef s"
  "zombieRef (handleMouseClick b s) = zombieRef s"
  "zombieRef (tick s) = zombieRef s"
  "playerRef (tick s) = playerRef s"
  "playerRef (handleKeyUp c s) = playerRef s"
  "playerRef (handleMouseClick b s) = playerRef s"
  "playerRef (animate s) \<noteq> None \<longleftrightarrow> playerRef s \<noteq> None"
  by (auto simp: loadAnimation_def zombieIdleLoaded_def zombieDeathLoaded_def
      setupZombieAnimations_def handleKeyDown_def pickupOrb_def handleKeyUp_def
      handleMouseClick_def tick_def animate_def animateOrb_frame Let_def split: option.splits)

lemma step_zombieRef: "step e s = Inr s' \<Longrightarrow> zombieRef s \<noteq> None \<Longrightarrow> zombieRef s' \<noteq> None"
proof (cases e)
  case (ZombieIdleLoaded h)
  assume "step e s = Inr s'"
  then have "s' = zombieIdleLoaded h s" using ZombieIdleLoaded by auto
  then show ?thesis by (simp only: loaders_zombieRef(2) not_False_eq_True)
next
  case Timeout
  assume "step e s = Inr s'" "zombieRef s \<noteq> None"
  then show ?thesis using Timeout timeout_refs [of s s'] by simp
qed (auto simp: loaders_zombieRef)

lemma step_playerRef: "step e s = Inr s' \<Longrightarrow> playerRef s \<noteq> None \<Longrightarrow> playerRef s' \<noteq> None"
proof (cases e)
  case Timeout
  assume "step e s = Inr s'" "playerRef s \<noteq> None"
  then show ?thesis using Timeout timeout_refs [of s s'] by simp
next
  case (AnimationLoaded n h)
  assume "step e s = Inr s'" "playerRef s \<noteq> None"
  then show ?thesis using AnimationLoaded loadAnimation_attacking(2) [of s n h]
    by (auto simp: loadAnimation_def Let_def)
next
  case AnimationFrame
  assume "step e s = Inr s'" "playerRef s \<noteq> None"
  then show ?thesis using AnimationFrame loaders_zombieRef(11) [of s] by auto
qed (auto simp: loaders_zombieRef handleKeyDown_player zombie_loaded_player)

lemma reachable_playerRef: "reachable s \<Longrightarrow> playerRef s \<noteq> None"
proof (induction rule: reachable.induct)
  case (reachable_init t0)
  show ?case by (simp add: init_def)
next
  case (reachable_step s e s')
  then show ?case using step_playerRef by blast
qed

lemma step_kill_zombieRef:
  assumes c: "consistent s" and st: "step e s = Inr s'"
    and a: "zombieStateRef s \<noteq> ''dead''" and d: "zombieStateRef s' = ''dead''"
  shows "zombieRef s' \<noteq> None"
proof -
  obtain k where k: "effectOf e s s' k" using step_effect [OF c st] by blast
  have "spawnDue s' \<noteq> []" using k a d by (cases k) (auto simp: effectOf_def)
  moreover have "consistent s'" using consistent_step [OF c, of e] st by auto
  ultimately show ?thesis by (auto simp: consistent_def)
qed

lemma reachable_dead_zombieRef: "reachable s \<Longrightarrow> zombieStateRef s = ''dead'' \<Longrightarrow> zombieRef s \<noteq> None"
proof (induction rule: reachable.induct)
  case (reachable_init t0)
  then show ?case by (simp add: init_def)
next
  case (reachable_step s e s')
  show ?case
  proof (cases "zombieStateRef s = ''dead''")
    case True
    then have "zombieRef s \<noteq> None" using reachable_step.IH by simp
    then show ?thesis using step_zombieRef [OF reachable_step.hyps(2)] by simp
  next
    case False
    then show ?thesis
      using step_kill_zombieRef [OF reachable_consistent [OF reachable_step.hyps(1)]
          reachable_step.hyps(2) False reachable_step.prems] by simp
  qed
qed


section \<open>The scenario, evaluated\<close>

lemma loadedScene_eq:
  "loadedScene = (init 0)
     \<lparr>actionsRef := (makeActions playerClips)(''idle'' \<mapsto> play clipAction),
      zombieRef := Some \<lparr>position = Vector3 (- 5) 0 (- 5)\<rparr>,
      zombieActionsRef := (makeActions [''zombieIdle'', ''zombieDeath''])
                            (''zombieIdle'' \<mapsto> play clipAction),
      loadedAnimations := 6, animationClips := playerClips,
      loadedCount := 2, zombieAnimations := [''zombieIdle'', ''zombieDeath'']\<rparr>"
  by (simp add: loadedScene_def playerClips_def loadAnimation_def setupAnimations_def
      zombieIdleLoaded_def zombieDeathLoaded_def setupZombieAnimations_def init_def Let_def
      makeActions_lookup)

lemma walkingTo_eq:
  "walkingTo x z = loadedScene
     \<lparr>playerRef := Some \<lparr>position = Vector3 x 0 z\<rparr>,
      keysRef := [''KeyW'' \<mapsto> True, ''KeyA'' \<mapsto> True],
      actionsRef := (makeActions playerClips)
         (''idle'' \<mapsto> fadeOut 0.2 (play clipAction),
          ''strafeLeft'' \<mapsto> play (setLoop LoopRepeat \<infinity> (fadeIn 0.2 (reset clipAction)))),
      currentActionRef := ''strafeLeft''\<rparr>"
  by (simp add: walkingTo_def loadedScene_eq handleKeyDown_def animate_def animateOrb_def
      movement_def moveIf_def moveSpeed_def pressed_def init_def checkOrbProximity_def
      playAnimation_def makeActions_lookup playerClips_def Let_def)

lemma animate_walkingTo: "animate (walkingTo x z) = walkingTo (x - 0.1) (z - 0.1)"
  by (simp add: walkingTo_eq loadedScene_eq animate_def animateOrb_def
      movement_def moveIf_def moveSpeed_def pressed_def init_def checkOrbProximity_def Let_def)

lemma frames_walkingTo:
  "(animate ^^ n) (walkingTo x z) = walkingTo (x - real n * 0.1) (z - real n * 0.1)"
proof (induction n)
  case 0
  show ?case by simp
next
  case (Suc n)
  have a: "x - real n * 0.1 - 0.1 = x - real (Suc n) * 0.1"
    and b: "z - real n * 0.1 - 0.1 = z - real (Suc n) * 0.1"
    by (simp_all add: algebra_simps)
  have "(animate ^^ Suc n) (walkingTo x z) = animate ((animate ^^ n) (walkingTo x z))"
    by simp
  also have "\<dots> = animate (walkingTo (x - real n * 0.1) (z - real n * 0.1))"
    by (simp only: Suc)
  also have "\<dots> = walkingTo (x - real n * 0.1 - 0.1) (z - real n * 0.1 - 0.1)"
    by (rule animate_walkingTo)
  finally show ?case by (simp only: a b)
qed

lemma reachable_loadedScene: "reachable loadedScene"
  unfolding loadedScene_def playerClips_def
  by (simp add: reachable_handlers reachable_init)

lemma walkingTo_start:
  "animate (handleKeyDown ''KeyA'' (handleKeyDown ''KeyW'' loadedScene)) = walkingTo (- 0.1) (- 0.1)"
  by (simp add: walkingTo_eq loadedScene_eq handleKeyDown_def animate_def animateOrb_def
      movement_def moveIf_def moveSpeed_def pressed_def init_def checkOrbProximity_def
      playAnimation_def makeActions_lookup playerClips_def Let_def)

lemma reachable_walkingTo: "reachable (walkingTo (- 4) (- 4))"
proof -
  have "reachable (animate (handleKeyDown ''KeyA'' (handleKeyDown ''KeyW'' loadedScene)))"
    by (intro reachable_handlers reachable_loadedScene)
  then have "reachable (walkingTo (- 0.1) (- 0.1))"
    by (simp only: walkingTo_start)
  then have "reachable ((animate ^^ 39) (walkingTo (- 0.1) (- 0.1)))"
    by (rule reachable_frames)
  moreover have "(animate ^^ 39) (walkingTo (- 0.1) (- 0.1)) = walkingTo (- 4) (- 4)"
    by (simp add: frames_walkingTo)
  ultimately show ?thesis by simp
qed

lemma nearZombie_fields:
  "playerRef nearZombie = Some \<lparr>position = Vector3 (- 4) 0 (- 4)\<rparr>"
  "zombieRef nearZombie = Some \<lparr>position = Vector3 (- 5) 0 (- 5)\<rparr>"
  "zombieStateRef nearZombie = ''alive''"
  "isAttackingRef nearZombie = False"
  "glowingOrbRef nearZombie = None"
  "currentActionRef nearZombie = ''strafeLeft''"
  "timers nearZombie = []"
  "now nearZombie = 0"
  by (simp_all add: nearZombie_def handleKeyUp_def walkingTo_eq loadedScene_eq init_def)

lemma struck_fields:
  "playerRef struck = Some \<lparr>position = Vector3 (- 4) 0 (- 4)\<rparr>"
  "zombieRef struck = Some \<lparr>position = Vector3 (- 5) 0 (- 5)\<rparr>"
  "zombieStateRef struck = ''alive''"
  "isAttackingRef struck"
  "glowingOrbRef struck = None"
  "timers struck = [(300, CheckHitCallback), (1000, AttackEndCallback)]"
  "now struck = 0"
  using handleMouseClick_timers [of nearZombie]
  by (simp_all add: struck_def nearZombie_fields handleMouseClick_def)

lemma struck_current: "currentActionRef struck = ''attack''"
  by (simp add: struck_def handleMouseClick_def nearZombie_def handleKeyUp_def walkingTo_eq
      loadedScene_eq init_def playAnimation_def makeActions_lookup playerClips_def Let_def)

lemma checkHit_hitDue: "checkHit (hitDue\<lparr>timers := ts\<rparr>)"
  by (simp add: checkHit_def hitDue_def struck_fields distanceTo_le_3 distanceToSquared_def)

lemma killed_fields:
  "playerRef killed = Some \<lparr>position = Vector3 (- 4) 0 (- 4)\<rparr>"
  "zombieRef killed = Some \<lparr>position = Vector3 (- 5) 0 (- 5)\<rparr>"
  "zombieStateRef killed = ''dead''"
  "isAttackingRef killed"
  "glowingOrbRef killed = None"
  "currentActionRef killed = ''attack''"
  "timers killed = [(1000, AttackEndCallback), (2300, CreateOrbCallback)]"
  "now killed = 300"
  using checkHit_hitDue [of "[(1000, AttackEndCallback)]"]
  by (simp_all add: killed_def checkHitCallback_def killZombie_timers hitDue_def struck_fields
      struck_current)

lemma reachable_struck: "reachable struck"
  unfolding struck_def nearZombie_def
  by (intro reachable_handlers reachable_walkingTo)

lemma reachable_hitDue: "reachable hitDue"
  using reachable_ticks [OF reachable_struck, of 300]
  by (simp add: hitDue_def struck_fields)

lemma step_hitDue: "step Timeout hitDue = Inr killed"
  by (simp add: timeout_def due_def hitDue_def struck_fields killed_def)

lemma reachable_killed: "reachable killed"
  using reachable_step [OF reachable_hitDue step_hitDue] .

lemma reachable_attackDue: "reachable (killed\<lparr>now := 1000\<rparr>)"
  using reachable_ticks [OF reachable_killed, of 700]
  by (simp add: killed_fields)

lemma step_attackDue: "step Timeout (killed\<lparr>now := 1000\<rparr>) = Inr attackOver"
  by (simp add: timeout_def due_def killed_fields attackOver_def)

lemma reachable_attackOver: "reachable attackOver"
  using reachable_step [OF reachable_attackDue step_attackDue] .

lemma attackOver_fields:
  "playerRef attackOver = Some \<lparr>position = Vector3 (- 4) 0 (- 4)\<rparr>"
  "zombieRef attackOver = Some \<lparr>position = Vector3 (- 5) 0 (- 5)\<rparr>"
  "zombieStateRef attackOver = ''dead''"
  "isAttackingRef attackOver = False"
  "glowingOrbRef attackOver = None"
  "timers attackOver = [(2300, CreateOrbCallback)]"
  "now attackOver = 1000"
  by (simp_all add: attackOver_def killed_fields)

lemma reachable_spawnTime: "reachable spawnTime"
  using reachable_ticks [OF reachable_attackOver, of 1300]
  by (simp add: spawnTime_def attackOver_fields)

lemma step_spawnTime: "step Timeout spawnTime = Inr spawned"
  by (simp add: timeout_def due_def spawnTime_def attackOver_fields spawned_def
      createOrbCallback_def)

lemma spawnTime_fields:
  "zombieRef spawnTime = Some \<lparr>position = Vector3 (- 5) 0 (- 5)\<rparr>"
  "zombieStateRef spawnTime = ''dead''"
  "glowingOrbRef spawnTime = None"
  "timers spawnTime = [(2300, CreateOrbCallback)]"
  "spawnDue spawnTime = [2300]"
  "now spawnTime = 2300"
  by (simp_all add: spawnTime_def attackOver_fields spawnDue_def)

lemma spawned_fields:
  "glowingOrbRef spawned = Some (orbAt (Vector3 (- 5) 0 (- 5)))"
  "spawnDue spawned = []"
  "now spawned = 2300"
  "zombieStateRef spawned = ''dead''"
  by (simp_all add: spawned_def createGlowingOrb_def orbAt_def spawnDue_def spawnTime_def
      attackOver_fields Let_def)

lemma hitDue_fields:
  "playerRef hitDue = Some \<lparr>position = Vector3 (- 4) 0 (- 4)\<rparr>"
  "zombieRef hitDue = Some \<lparr>position = Vector3 (- 5) 0 (- 5)\<rparr>"
  "zombieStateRef hitDue = ''alive''"
  "isAttackingRef hitDue"
  "glowingOrbRef hitDue = None"
  "timers hitDue = [(300, CheckHitCallback), (1000, AttackEndCallback)]"
  "spawnDue hitDue = []"
  "now hitDue = 300"
  by (simp_all add: hitDue_def struck_fields spawnDue_def)

lemma killed_spawnDue: "spawnDue killed = [2300]"
  by (simp add: spawnDue_def killed_fields)

lemma zombieTransitions_hitDue: "zombieTransitions [Timeout] hitDue = 1"
proof -
  have "zombieTransitions [Timeout] hitDue
      = (if zombieStateRef killed \<noteq> zombieStateRef hitDue then 1 else 0)"
    by (simp add: step_hitDue [simplified])
  then show ?thesis by (simp add: killed_fields hitDue_fields)
qed

lemma struck_walkForward: "actionsRef struck ''walkForward'' \<noteq> None"
  by (simp add: struck_def handleMouseClick_def nearZombie_def handleKeyUp_def walkingTo_eq
      loadedScene_eq init_def playAnimation_def makeActions_lookup playerClips_def Let_def)

lemma heldAttack_fields:
  "reachable heldAttack"
  "isAttackingRef heldAttack"
  "currentActionRef heldAttack = ''attack''"
  "playerRef heldAttack = Some \<lparr>position = Vector3 (- 4) 0 (- 4)\<rparr>"
  "pressed heldAttack ''KeyW''"
  "pressed heldAttack ''KeyD''"
  "spec_resumeState heldAttack = ''walkForward''"
  "actionsRef heldAttack ''walkForward'' \<noteq> None"
proof -
  show "reachable heldAttack"
    unfolding heldAttack_def by (intro reachable_handlers reachable_struck)
  show "isAttackingRef heldAttack" "currentActionRef heldAttack = ''attack''"
    "playerRef heldAttack = Some \<lparr>position = Vector3 (- 4) 0 (- 4)\<rparr>"
    "actionsRef heldAttack ''walkForward'' \<noteq> None"
    by (simp_all add: heldAttack_def handleKeyDown_player struck_fields struck_current
        struck_walkForward)
  show w: "pressed heldAttack ''KeyW''" and "pressed heldAttack ''KeyD''"
    by (simp_all add: heldAttack_def pressed_handleKeyDown)
  then show "spec_resumeState heldAttack = ''walkForward''"
    by (simp add: spec_resumeState_def)
qed

lemma nearZombie_tracks:
  "actionsRef nearZombie ''attack'' = Some clipAction"
  "zombieActionsRef nearZombie ''zombieDeath'' = Some clipAction"
  by (simp_all add: nearZombie_def handleKeyUp_def walkingTo_eq loadedScene_eq init_def
      makeActions_lookup playerClips_def)

lemma reachable_nearZombie: "reachable nearZombie"
  unfolding nearZombie_def by (intro reachable_handlers reachable_walkingTo)

lemma spawned_more:
  "playerRef spawned = Some \<lparr>position = Vector3 (- 4) 0 (- 4)\<rparr>"
  "sceneOrbs spawned = sceneOrbs spawnTime + 1"
  by (simp_all add: spawned_def createGlowingOrb_def Let_def spawnTime_def attackOver_fields)

lemma reachable_spawned: "reachable spawned"
  using reachable_step [OF reachable_spawnTime step_spawnTime] .

lemma checkOrbProximity_spawned: "checkOrbProximity spawned"
proof -
  have "distanceToSquared (Vector3 (- 4) 0 (- 4)) (position (orbAt (Vector3 (- 5) 0 (- 5)))) \<le> 6.25"
    by (simp add: distanceToSquared_def orbAt_def)
  then have "distanceTo (Vector3 (- 4) 0 (- 4)) (position (orbAt (Vector3 (- 5) 0 (- 5)))) \<le> 2.5"
    by (simp only: distanceTo_le_25)
  then show ?thesis
    unfolding checkOrbProximity_iff using spawned_more(1) spawned_fields(1) by auto
qed

lemma step_collect: "step (KeyDown ''KeyE'') spawned = Inr collected"
  by (simp add: collected_def)

lemma reachable_collected: "reachable collected"
  using reachable_step [OF reachable_spawned step_collect] .

lemma collected_fields:
  "glowingOrbRef collected = None"
  "zombieStateRef collected = ''dead''"
  "spawnDue collected = []"
  using collect_removes [OF checkOrbProximity_spawned]
  by (simp_all add: collected_def quiet_events spawned_fields)


lemma earlyWalkingTo_eq:
  "earlyWalkingTo x z = (init 0)
     \<lparr>playerRef := Some \<lparr>position = Vector3 x 0 z\<rparr>,
      keysRef := [''KeyW'' \<mapsto> True, ''KeyA'' \<mapsto> True],
      zombieRef := Some \<lparr>position = Vector3 (- 5) 0 (- 5)\<rparr>,
      loadedCount := 1, zombieAnimations := [''zombieIdle'']\<rparr>"
  by (simp add: earlyWalkingTo_def handleKeyDown_def zombieIdleLoaded_def
      setupZombieAnimations_def checkOrbProximity_def init_def Let_def)

lemma animate_earlyWalkingTo: "animate (earlyWalkingTo x z) = earlyWalkingTo (x - 0.1) (z - 0.1)"
  by (simp add: earlyWalkingTo_eq animate_def animateOrb_def movement_def moveIf_def
      moveSpeed_def pressed_def init_def checkOrbProximity_def Let_def)

lemma frames_earlyWalkingTo:
  "(animate ^^ n) (earlyWalkingTo x z) = earlyWalkingTo (x - real n * 0.1) (z - real n * 0.1)"
proof (induction n)
  case 0
  show ?case by simp
next
  case (Suc n)
  have a: "x - real n * 0.1 - 0.1 = x - real (Suc n) * 0.1"
    and b: "z - real n * 0.1 - 0.1 = z - real (Suc n) * 0.1"
    by (simp_all add: algebra_simps)
  have "(animate ^^ Suc n) (earlyWalkingTo x z) = animate ((animate ^^ n) (earlyWalkingTo x z))"
    by simp
  also have "\<dots> = animate (earlyWalkingTo (x - real n * 0.1) (z - real n * 0.1))"
    by (simp only: Suc)
  also have "\<dots> = earlyWalkingTo (x - real n * 0.1 - 0.1) (z - real n * 0.1 - 0.1)"
    by (rule animate_earlyWalkingTo)
  finally show ?case by (simp only: a b)
qed

lemma reachable_earlyWalkingTo: "reachable (earlyWalkingTo (- 4) (- 4))"
proof -
  have "earlyWalkingTo 0 0
      = handleKeyDown ''KeyA'' (handleKeyDown ''KeyW'' (zombieIdleLoaded True (init 0)))"
    by (simp add: earlyWalkingTo_eq handleKeyDown_def zombieIdleLoaded_def
      setupZombieAnimations_def checkOrbProximity_def init_def Let_def)
  moreover have "reachable (handleKeyDown ''KeyA'' (handleKeyDown ''KeyW''
      (zombieIdleLoaded True (init 0))))"
    by (intro reachable_handlers reachable_init)
  ultimately have "reachable (earlyWalkingTo 0 0)" by simp
  then have "reachable ((animate ^^ 40) (earlyWalkingTo 0 0))"
    by (rule reachable_frames)
  moreover have "(animate ^^ 40) (earlyWalkingTo 0 0) = earlyWalkingTo (- 4) (- 4)"
    by (simp add: frames_earlyWalkingTo)
  ultimately show ?thesis by simp
qed

lemma earlyHitDue_fields:
  "playerRef earlyHitDue = Some \<lparr>position = Vector3 (- 4) 0 (- 4)\<rparr>"
  "zombieRef earlyHitDue = Some \<lparr>position = Vector3 (- 5) 0 (- 5)\<rparr>"
  "zombieStateRef earlyHitDue = ''alive''"
  "loadedAnimations earlyHitDue = 0"
  "actionsRef earlyHitDue = Map.empty"
  "zombieActionsRef earlyHitDue = Map.empty"
  "timers earlyHitDue = [(300, CheckHitCallback), (1000, AttackEndCallback)]"
  "now earlyHitDue = 300"
  by (simp_all add: earlyHitDue_def earlyStruck_def handleMouseClick_def earlyNear_def
      handleKeyUp_def earlyWalkingTo_eq init_def setTimeout_def)

lemma reachable_earlyHitDue: "reachable earlyHitDue"
proof -
  have r: "reachable earlyStruck"
    unfolding earlyStruck_def earlyNear_def
    by (intro reachable_handlers reachable_earlyWalkingTo)
  have t: "timers earlyStruck = [(300, CheckHitCallback), (1000, AttackEndCallback)]"
    "now earlyStruck = 0"
    by (simp_all add: earlyStruck_def handleMouseClick_def earlyNear_def
      handleKeyUp_def earlyWalkingTo_eq init_def)
  show ?thesis
    using reachable_ticks [OF r, of 300] by (simp add: earlyHitDue_def t)
qed

lemma checkHit_earlyHitDue: "checkHit (earlyHitDue\<lparr>timers := ts\<rparr>)"
  by (simp add: checkHit_def earlyHitDue_fields distanceTo_le_3 distanceToSquared_def)

lemma step_earlyHitDue: "step Timeout earlyHitDue = Inr earlyKilled"
  by (simp add: timeout_def due_def earlyHitDue_fields earlyKilled_def)

section \<open>Hit resolution\<close>

text \<open>
  C1. With both objects present and the zombie state one of its two values, \<open>checkHit\<close>
  returns true exactly when the Euclidean distance between the player and the zombie is
  at most 3.0 and the zombie is alive; when the zombie is dead it returns false
  whatever the distance.
\<close>

theorem checkHit_iff:
  "(playerRef s = Some player \<and> zombieRef s = Some zombie
      \<and> zombieStateRef s \<in> {''alive'', ''dead''} \<longrightarrow>
      checkHit s = (distanceTo (position player) (position zombie) \<le> 3
                      \<and> zombieStateRef s = ''alive''))
   \<and> (zombieStateRef s = ''dead'' \<longrightarrow> checkHit s = False)"
  by (auto simp: checkHit_def split: option.splits)

text \<open>
  The player at the origin and a zombie at distance \<open>sqrt 5\<close>: a hit while the zombie is
  alive, none once it is dead.
\<close>

theorem checkHit_iff_witness:
  "playerRef (init 0\<lparr>zombieRef := Some \<lparr>position = Vector3 1 0 (- 2)\<rparr>\<rparr>)
      = Some \<lparr>position = Vector3 0 0 0\<rparr>
   \<and> zombieRef (init 0\<lparr>zombieRef := Some \<lparr>position = Vector3 1 0 (- 2)\<rparr>\<rparr>)
      = Some \<lparr>position = Vector3 1 0 (- 2)\<rparr>
   \<and> zombieStateRef (init 0\<lparr>zombieRef := Some \<lparr>position = Vector3 1 0 (- 2)\<rparr>\<rparr>)
      \<in> {''alive'', ''dead''}
   \<and> checkHit (init 0\<lparr>zombieRef := Some \<lparr>position = Vector3 1 0 (- 2)\<rparr>\<rparr>)
   \<and> distanceTo (Vector3 0 0 0) (Vector3 1 0 (- 2)) \<le> 3
   \<and> zombieStateRef (init 0\<lparr>zombieRef := Some \<lparr>position = Vector3 1 0 (- 2)\<rparr>,
        zombieStateRef := ''dead''\<rparr>) = ''dead''
   \<and> \<not> checkHit (init 0\<lparr>zombieRef := Some \<lparr>position = Vector3 1 0 (- 2)\<rparr>,
        zombieStateRef := ''dead''\<rparr>)"
  using checkHit_iff [of "init 0\<lparr>zombieRef := Some \<lparr>position = Vector3 1 0 (- 2)\<rparr>\<rparr>"
      "\<lparr>position = Vector3 0 0 0\<rparr>" "\<lparr>position = Vector3 1 0 (- 2)\<rparr>"]
    checkHit_iff [of "init 0\<lparr>zombieRef := Some \<lparr>position = Vector3 1 0 (- 2)\<rparr>,
        zombieStateRef := ''dead''\<rparr>" "\<lparr>position = Vector3 0 0 0\<rparr>" "\<lparr>position = Vector3 1 0 (- 2)\<rparr>"]
  by (simp add: init_def distanceTo_le_3 distanceToSquared_def)

text \<open>
  C10. When the player object or the zombie object is absent, \<open>checkHit\<close> returns
  false instead of raising, and the hit callback of an attack leaves the state as it is.
  In a session the zombie is alive as long as the zombie object is absent: no hit is
  registered before the zombie's model has loaded. The player object is the group
  that the effect creates when it runs: it is present in every state of a session,
  whether or not a player file has loaded.
\<close>

theorem checkHit_unloaded:
  "(playerRef s = None \<or> zombieRef s = None \<longrightarrow>
      checkHitE s = Inr False \<and> checkHit s = False \<and> checkHitCallback s = s
      \<and> runCallback CheckHitCallback s = Inr s)
   \<and> (reachable s \<and> zombieRef s = None \<longrightarrow> zombieStateRef s = ''alive'')
   \<and> (reachable s \<longrightarrow> playerRef s \<noteq> None)"
proof -
  have guard: "playerRef s = None \<or> zombieRef s = None \<longrightarrow>
      checkHitE s = Inr False \<and> checkHit s = False \<and> checkHitCallback s = s
      \<and> runCallback CheckHitCallback s = Inr s"
    by (auto simp: checkHitE_def checkHit_def checkHitCallback_def split: option.splits)
  have alive: "reachable s \<and> zombieRef s = None \<longrightarrow> zombieStateRef s = ''alive''"
    using reachable_dead_zombieRef [of s] reachable_consistent [of s]
    by (auto simp: consistent_def)
  have player: "reachable s \<longrightarrow> playerRef s \<noteq> None"
    using reachable_playerRef [of s] by blast
  from guard alive player show ?thesis by (intro conjI)
qed

theorem checkHit_unloaded_witness:
  "reachable (init 0) \<and> zombieRef (init 0) = None
   \<and> checkHitE (init 0) = Inr False \<and> checkHit (init 0) = False
   \<and> runCallback CheckHitCallback (init 0) = Inr (init 0)
   \<and> zombieStateRef (init 0) = ''alive'' \<and> playerRef (init 0) \<noteq> None"
proof -
  note t = checkHit_unloaded [of "init 0"]
  have 1: "zombieRef (init 0) = None" by (simp add: init_def)
  have 2: "checkHitE (init 0) = Inr False" "checkHit (init 0) = False"
    "runCallback CheckHitCallback (init 0) = Inr (init 0)"
    using t 1 by blast+
  have 3: "zombieStateRef (init 0) = ''alive''" "playerRef (init 0) \<noteq> None"
    using t 1 reachable_init [of 0] by blast+
  show ?thesis by (intro conjI 1 2 3 reachable_init)
qed

text \<open>
  A hit with no player file loaded: the player group walks to the loaded zombie, and
  the hit callback of a click finds it in range and kills it.
\<close>

theorem hit_before_player_loads_counterexample:
  "reachable earlyHitDue \<and> loadedAnimations earlyHitDue = 0
   \<and> actionsRef earlyHitDue = Map.empty \<and> zombieActionsRef earlyHitDue = Map.empty
   \<and> zombieStateRef earlyHitDue = ''alive'' \<and> checkHit earlyHitDue
   \<and> step Timeout earlyHitDue = Inr earlyKilled \<and> zombieStateRef earlyKilled = ''dead''"
proof -
  have "checkHit earlyHitDue" using checkHit_earlyHitDue [of "timers earlyHitDue"] by simp
  moreover have "zombieStateRef earlyKilled = ''dead''"
    using checkHit_earlyHitDue [of "[(1000, AttackEndCallback)]"]
    by (simp add: earlyKilled_def checkHitCallback_def)
  ultimately show ?thesis
    by (intro conjI reachable_earlyHitDue step_earlyHitDue earlyHitDue_fields)
qed

section \<open>Playing an animation\<close>

text \<open>
  C6. \<open>playAnimation\<close> with the name of the current animation changes nothing: the
  current name and every action, hence every fade, stay as they are. Calling it twice
  with the same name is the same as calling it once.
\<close>

theorem playAnimation_current_noop:
  "playAnimation (currentActionRef s) lp s = s
   \<and> playAnimation name lp (playAnimation name lp s) = playAnimation name lp s"
  by (simp add: playAnimation_def Let_def split: option.splits)

text \<open>
  C7. \<open>playAnimation\<close> with a name that has no action in the table changes nothing:
  no fade starts and the current animation stays.
\<close>

theorem playAnimation_missing_noop:
  "actionsRef s name = None \<Longrightarrow> playAnimation name lp s = s"
  by (simp add: playAnimation_def)

theorem playAnimation_missing_noop_witness:
  "actionsRef (setupAnimations [''idle''] (init 0)) ''attack'' = None
   \<and> playAnimation ''attack'' False (setupAnimations [''idle''] (init 0))
       = setupAnimations [''idle''] (init 0)"
  using playAnimation_missing_noop [of "setupAnimations [''idle''] (init 0)" "''attack''" False]
  by (simp add: setupAnimations_def makeActions_def init_def)

text \<open>
  C2. Both single-shot tracks are set to play once, and only the zombie's death track is
  set to hold its final pose. \<open>killZombie\<close> starts the death track with
  \<open>LoopOnce\<close>, one repetition and \<open>clampWhenFinished\<close> set. \<open>playAnimation\<close> with
  \<open>loop = false\<close> starts its track with \<open>LoopOnce\<close> and leaves
  \<open>clampWhenFinished\<close> as it was, and in a session that flag is false on every
  action of the player: the attack track is not set to hold its final pose.
\<close>

theorem single_shot_tracks:
  "(zombieStateRef s \<noteq> ''dead'' \<and> zombieActionsRef s ''zombieDeath'' = Some death \<longrightarrow>
      (\<exists>a. zombieActionsRef (killZombie s) ''zombieDeath'' = Some a
           \<and> loop a = LoopOnce \<and> repetitions a = 1 \<and> clampWhenFinished a))
   \<and> (actionsRef s name = Some target \<and> currentActionRef s \<noteq> name \<longrightarrow>
      (\<exists>a. actionsRef (playAnimation name False s) name = Some a
           \<and> loop a = LoopOnce \<and> clampWhenFinished a = clampWhenFinished target))
   \<and> (reachable s \<and> actionsRef s name = Some target \<longrightarrow> \<not> clampWhenFinished target)"
proof -
  have "reachable s \<and> actionsRef s name = Some target \<longrightarrow> \<not> clampWhenFinished target"
    using reachable_unclamped [of s] by (auto simp: unclamped_def)
  then show ?thesis
    by (auto simp: killZombie_death playAnimation_started play_def setLoop_def fadeIn_def
        reset_def)
qed

theorem single_shot_tracks_witness:
  "zombieStateRef nearZombie \<noteq> ''dead''
   \<and> zombieActionsRef nearZombie ''zombieDeath'' = Some clipAction
   \<and> map_option loop (zombieActionsRef (killZombie nearZombie) ''zombieDeath'') = Some LoopOnce
   \<and> map_option clampWhenFinished (zombieActionsRef (killZombie nearZombie) ''zombieDeath'')
       = Some True
   \<and> reachable nearZombie \<and> actionsRef nearZombie ''attack'' = Some clipAction
   \<and> currentActionRef nearZombie \<noteq> ''attack''
   \<and> \<not> clampWhenFinished clipAction
   \<and> map_option loop (actionsRef (playAnimation ''attack'' False nearZombie) ''attack'')
       = Some LoopOnce
   \<and> map_option clampWhenFinished (actionsRef (playAnimation ''attack'' False nearZombie) ''attack'')
       = Some False"
proof -
  note t = single_shot_tracks [of nearZombie clipAction "''attack''" clipAction]
  have 1: "zombieStateRef nearZombie \<noteq> ''dead''" "currentActionRef nearZombie \<noteq> ''attack''"
    by (simp_all add: nearZombie_fields)
  have 2: "\<not> clampWhenFinished clipAction"
    using t reachable_nearZombie nearZombie_tracks(1) by blast
  obtain a where a: "zombieActionsRef (killZombie nearZombie) ''zombieDeath'' = Some a"
    "loop a = LoopOnce" "clampWhenFinished a"
    using t 1 nearZombie_tracks(2) by blast
  obtain b where b: "actionsRef (playAnimation ''attack'' False nearZombie) ''attack'' = Some b"
    "loop b = LoopOnce" "clampWhenFinished b = clampWhenFinished clipAction"
    using t 1 nearZombie_tracks(1) by blast
  show ?thesis
    using 1 2 a b reachable_nearZombie nearZombie_tracks by simp
qed

text \<open>
  The attack track after a click in the loaded scene: single-shot, and not clamped.
\<close>

theorem attack_unclamped_counterexample:
  "map_option loop (actionsRef (handleMouseClick 0 nearZombie) ''attack'') = Some LoopOnce
   \<and> map_option clampWhenFinished (actionsRef (handleMouseClick 0 nearZombie) ''attack'')
       = Some False"
  by (simp add: handleMouseClick_def nearZombie_def handleKeyUp_def walkingTo_eq
      loadedScene_eq init_def playAnimation_def makeActions_lookup playerClips_def Let_def
      play_def setLoop_def fadeIn_def reset_def clipAction_def)

section \<open>Movement animation in a frame\<close>

text \<open>
  C3. With W and D held and no attack running, one frame moves the player along both
  axes and selects \<open>strafeRight\<close>, the direction tested last, while the first held
  direction in the order forward, back, left, right is \<open>walkForward\<close>, which is what
  the attack-end callback would select for the same keys.
\<close>

theorem frame_last_direction_wins:
  "\<not> isAttackingRef diagonal \<and> pressed diagonal ''KeyW'' \<and> pressed diagonal ''KeyD''
   \<and> spec_resumeState diagonal = ''walkForward''
   \<and> currentActionRef (animate diagonal) = ''strafeRight''
   \<and> playerRef diagonal = Some \<lparr>position = Vector3 0 0 0\<rparr>
   \<and> playerRef (animate diagonal) = Some \<lparr>position = Vector3 0.1 0 (- 0.1)\<rparr>"
  by (simp add: diagonal_def spec_resumeState_def loadedScene_eq handleKeyDown_def animate_def
      animateOrb_def movement_def moveIf_def moveSpeed_def pressed_def init_def
      checkOrbProximity_def playAnimation_def makeActions_lookup playerClips_def Let_def)

section \<open>The attack window\<close>

text \<open>
  C4. While \<open>isAttackingRef\<close> is set a click changes nothing, and no event of a
  session other than the attack-end callback clears the flag, changes the current
  animation or moves the player, whatever keys are held. A click that is honoured sets
  the flag and schedules the hit callback 300 ms and the attack-end callback 1000 ms
  ahead, and callbacks run at the millisecond they are due. The attack-end callback
  clears the flag and plays the resume state of the specification: the first held
  direction in the order forward, back, left, right, idle when none is held; when that
  state has an action it becomes the current animation.
\<close>

theorem attack_commitment:
  "(isAttackingRef s \<longrightarrow> handleMouseClick b s = s)
   \<and> (reachable s \<and> isAttackingRef s \<and> step e s = Inr s'
        \<and> (e = Timeout \<longrightarrow> (\<forall>t ts. due s = t # ts \<longrightarrow> snd t \<noteq> AttackEndCallback)) \<longrightarrow>
        isAttackingRef s' \<and> currentActionRef s' = currentActionRef s
        \<and> playerRef s' = playerRef s)
   \<and> (\<not> isAttackingRef s \<longrightarrow>
        isAttackingRef (handleMouseClick 0 s)
        \<and> timers (handleMouseClick 0 s)
            = timers s @ [(now s + 300, CheckHitCallback), (now s + 1000, AttackEndCallback)])
   \<and> (reachable s \<longrightarrow> (\<forall>t \<in> set (due s). fst t = now s))
   \<and> attackEndCallback s
        = playAnimation (spec_resumeState s) True (s\<lparr>isAttackingRef := False\<rparr>)
   \<and> \<not> isAttackingRef (attackEndCallback s)
   \<and> (actionsRef s (spec_resumeState s) \<noteq> None \<longrightarrow>
        currentActionRef (attackEndCallback s) = spec_resumeState s)"
proof -
  have exact: "reachable s \<longrightarrow> (\<forall>t \<in> set (due s). fst t = now s)"
  proof
    assume "reachable s"
    then have "\<forall>t \<in> set (timers s). now s \<le> fst t"
      using reachable_consistent [of s] by (simp add: consistent_def)
    then show "\<forall>t \<in> set (due s). fst t = now s" by (auto simp: due_def)
  qed
  have resume: "actionsRef s (spec_resumeState s) \<noteq> None \<longrightarrow>
      currentActionRef (attackEndCallback s) = spec_resumeState s"
    by (simp add: attackEndCallback_resume playAnimation_current)
  show ?thesis
    using step_attacking [of s e s'] reachable_consistent [of s] exact resume
      handleMouseClick_timers [of s] attackEndCallback_resume [of s]
    by (auto simp: handleMouseClick_def)
qed

text \<open>
  An attack with W and D held: the frame changes nothing, a second click changes
  nothing, and the attack-end callback resumes with \<open>walkForward\<close>.
\<close>

theorem attack_commitment_witness:
  "reachable heldAttack \<and> isAttackingRef heldAttack
   \<and> pressed heldAttack ''KeyW'' \<and> pressed heldAttack ''KeyD''
   \<and> handleMouseClick 0 heldAttack = heldAttack
   \<and> step AnimationFrame heldAttack = Inr (animate heldAttack)
   \<and> isAttackingRef (animate heldAttack)
   \<and> currentActionRef (animate heldAttack) = ''attack''
   \<and> playerRef (animate heldAttack) = Some \<lparr>position = Vector3 (- 4) 0 (- 4)\<rparr>
   \<and> \<not> isAttackingRef nearZombie
   \<and> timers (handleMouseClick 0 nearZombie)
       = [(300, CheckHitCallback), (1000, AttackEndCallback)]
   \<and> actionsRef heldAttack (spec_resumeState heldAttack) \<noteq> None
   \<and> \<not> isAttackingRef (attackEndCallback heldAttack)
   \<and> currentActionRef (attackEndCallback heldAttack) = ''walkForward''"
proof -
  note held = attack_commitment [of heldAttack 0 AnimationFrame "animate heldAttack"]
  note click = attack_commitment [of nearZombie 0 AnimationFrame "animate nearZombie"]
  have 1: "step AnimationFrame heldAttack = Inr (animate heldAttack)" by simp
  have 2: "handleMouseClick 0 heldAttack = heldAttack"
    using held heldAttack_fields(2) by blast
  have 3: "isAttackingRef (animate heldAttack)
      \<and> currentActionRef (animate heldAttack) = currentActionRef heldAttack
      \<and> playerRef (animate heldAttack) = playerRef heldAttack"
    using held heldAttack_fields(1,2) 1 by blast
  have 4: "\<not> isAttackingRef nearZombie" by (simp add: nearZombie_fields)
  have 5: "timers (handleMouseClick 0 nearZombie)
      = [(300, CheckHitCallback), (1000, AttackEndCallback)]"
    using click 4 by (simp add: nearZombie_fields)
  have 6: "actionsRef heldAttack (spec_resumeState heldAttack) \<noteq> None"
    by (simp add: heldAttack_fields)
  have 7: "\<not> isAttackingRef (attackEndCallback heldAttack)"
    "currentActionRef (attackEndCallback heldAttack) = spec_resumeState heldAttack"
    using held 6 by blast+
  show ?thesis
    using heldAttack_fields 1 2 3 4 5 6 7 by simp
qed

section \<open>The enemy state\<close>

text \<open>
  C5. Along any run of events the zombie state changes at most once; a step that changes
  it ends in \<open>dead\<close>, and in a session it starts from \<open>alive\<close>; once the state is
  \<open>dead\<close> it is \<open>dead\<close> after any further events.
\<close>

theorem zombie_dies_once:
  "zombieTransitions es s \<le> 1
   \<and> (step e s = Inr s' \<and> zombieStateRef s' \<noteq> zombieStateRef s \<longrightarrow>
        zombieStateRef s' = ''dead'' \<and> (reachable s \<longrightarrow> zombieStateRef s = ''alive''))
   \<and> (zombieStateRef s = ''dead'' \<and> run es s = Inr s'' \<longrightarrow> zombieStateRef s'' = ''dead'')"
proof -
  have "reachable s \<Longrightarrow> zombieStateRef s \<noteq> ''dead'' \<Longrightarrow> zombieStateRef s = ''alive''"
    using reachable_consistent [of s] by (auto simp: consistent_def)
  then show ?thesis
    using transitions_le_1 [of es s] step_zombieState [of e s s'] run_dead [of s es s'']
    by auto
qed

theorem zombie_dies_once_witness:
  "reachable hitDue \<and> step Timeout hitDue = Inr killed
   \<and> zombieStateRef hitDue = ''alive'' \<and> zombieStateRef killed = ''dead''
   \<and> zombieTransitions [Timeout] hitDue = 1
   \<and> run [Timeout] (killed\<lparr>now := 1000\<rparr>) = Inr attackOver
   \<and> zombieStateRef (killed\<lparr>now := 1000\<rparr>) = ''dead''
   \<and> zombieStateRef attackOver = ''dead''"
proof -
  note kill = zombie_dies_once [of "[Timeout]" hitDue Timeout killed attackOver]
  note rest = zombie_dies_once [of "[Timeout]" "killed\<lparr>now := 1000\<rparr>" Timeout attackOver attackOver]
  have 1: "zombieStateRef killed \<noteq> zombieStateRef hitDue"
    by (simp add: killed_fields hitDue_fields)
  have 2: "zombieStateRef killed = ''dead''" "zombieStateRef hitDue = ''alive''"
    using kill 1 reachable_hitDue step_hitDue by blast+
  have 3: "run [Timeout] (killed\<lparr>now := 1000\<rparr>) = Inr attackOver"
    by (simp add: step_attackDue [simplified])
  have 4: "zombieStateRef (killed\<lparr>now := 1000\<rparr>) = ''dead''"
    by (simp add: killed_fields)
  have 5: "zombieStateRef attackOver = ''dead''"
    using rest 3 4 by blast
  show ?thesis
    using reachable_hitDue step_hitDue zombieTransitions_hitDue 2 3 4 5 by blast
qed

section \<open>The pickup\<close>

text \<open>
  C8. For every step of a session. While the zombie is not dead there is no pickup and
  no spawn is scheduled. The step that kills the zombie at time \<open>T\<close> schedules
  one spawn, due at \<open>T + 2000\<close> ms. A scheduled spawn stays the only one, the clock
  does not pass its due time, and it runs at the millisecond it is due, creating the
  pickup one unit above the zombie's position. A pickup appears only by that callback
  and disappears only when the player, in range, presses E. Once the zombie is dead and
  no spawn is scheduled, none is scheduled again, and a pickup that is gone stays gone.
  The scene holds exactly the pickup that exists. In range means that the player and
  the pickup are at most 2.5 apart, and pressing E in range removes the pickup from the
  ref and from the scene and hides the prompt. From a state with a spawn scheduled,
  timeouts and clock ticks alone lead to the pickup at the due time.
\<close>

theorem pickup_lifecycle:
  assumes "reachable s" and "step e s = Inr s'"
  shows "(zombieStateRef s \<noteq> ''dead'' \<longrightarrow> glowingOrbRef s = None \<and> spawnDue s = [])
     \<and> (zombieStateRef s \<noteq> ''dead'' \<and> zombieStateRef s' = ''dead'' \<longrightarrow>
          spawnDue s' = [now s + 2000] \<and> glowingOrbRef s' = None)
     \<and> (spawnDue s \<noteq> [] \<longrightarrow>
          (\<exists>d. spawnDue s = [d] \<and> now s \<le> d \<and> glowingOrbRef s = None
             \<and> (spawnDue s' = [d] \<and> glowingOrbRef s' = None
                 \<or> e = Timeout \<and> now s = d \<and> spawnDue s' = []
                    \<and> (\<exists>zombie. zombieRef s = Some zombie
                          \<and> glowingOrbRef s' = Some (orbAt (position zombie))))))
     \<and> (glowingOrbRef s = None \<and> glowingOrbRef s' \<noteq> None \<longrightarrow>
          e = Timeout \<and> spawnDue s = [now s] \<and> spawnDue s' = [])
     \<and> (glowingOrbRef s \<noteq> None \<and> glowingOrbRef s' = None \<longrightarrow>
          e = KeyDown ''KeyE'' \<and> checkOrbProximity s)
     \<and> (zombieStateRef s = ''dead'' \<and> spawnDue s = [] \<longrightarrow>
          spawnDue s' = [] \<and> (glowingOrbRef s = None \<longrightarrow> glowingOrbRef s' = None))
     \<and> sceneOrbs s = (if glowingOrbRef s = None then 0 else 1)
     \<and> (checkOrbProximity s \<longleftrightarrow>
          (\<exists>player orb. playerRef s = Some player \<and> glowingOrbRef s = Some orb
             \<and> distanceTo (position player) (position orb) \<le> 2.5))
     \<and> (e = KeyDown ''KeyE'' \<and> checkOrbProximity s \<longrightarrow>
          glowingOrbRef s' = None \<and> sceneOrbs s' = 0 \<and> \<not> showPickupPrompt s')
     \<and> (spawnDue s = [d] \<longrightarrow>
          (\<exists>es s'' zombie. set es \<subseteq> {Timeout, Tick} \<and> run es s = Inr s'' \<and> now s'' = d
             \<and> spawnDue s'' = [] \<and> zombieRef s = Some zombie
             \<and> glowingOrbRef s'' = Some (orbAt (position zombie))))"
proof -
  have c: "consistent s" using assms(1) by (rule reachable_consistent)
  obtain k where k: "effectOf e s s' k" using step_effect [OF c assms(2)] by blast
  have alive: "zombieStateRef s \<noteq> ''dead'' \<longrightarrow> glowingOrbRef s = None \<and> spawnDue s = []"
    and orbs: "sceneOrbs s = (if glowingOrbRef s = None then 0 else 1)"
    and pend: "spawnDue s \<noteq> [] \<longrightarrow> glowingOrbRef s = None"
    and len: "length (spawnDue s) \<le> 1"
    and clock: "\<forall>t \<in> set (timers s). now s \<le> fst t"
    using c by (simp_all add: consistent_def)
  have one: "spawnDue s \<noteq> [] \<longrightarrow> (\<exists>d. spawnDue s = [d] \<and> now s \<le> d)"
  proof
    assume "spawnDue s \<noteq> []"
    then obtain d where d: "spawnDue s = [d]"
      using len by (cases "spawnDue s") auto
    then have "now s \<le> d" using spawnDue_mem [OF d] clock by auto
    then show "\<exists>d. spawnDue s = [d] \<and> now s \<le> d" using d by simp
  qed
  have live: "spawnDue s = [d] \<longrightarrow>
      (\<exists>es s'' zombie. set es \<subseteq> {Timeout, Tick} \<and> run es s = Inr s'' \<and> now s'' = d
         \<and> spawnDue s'' = [] \<and> zombieRef s = Some zombie
         \<and> glowingOrbRef s'' = Some (orbAt (position zombie)))"
    using spawn_happens [OF c] by blast
  have safe: "(zombieStateRef s \<noteq> ''dead'' \<longrightarrow> glowingOrbRef s = None \<and> spawnDue s = [])
     \<and> (zombieStateRef s \<noteq> ''dead'' \<and> zombieStateRef s' = ''dead'' \<longrightarrow>
          spawnDue s' = [now s + 2000] \<and> glowingOrbRef s' = None)
     \<and> (spawnDue s \<noteq> [] \<longrightarrow>
          (\<exists>d. spawnDue s = [d] \<and> now s \<le> d \<and> glowingOrbRef s = None
             \<and> (spawnDue s' = [d] \<and> glowingOrbRef s' = None
                 \<or> e = Timeout \<and> now s = d \<and> spawnDue s' = []
                    \<and> (\<exists>zombie. zombieRef s = Some zombie
                          \<and> glowingOrbRef s' = Some (orbAt (position zombie))))))
     \<and> (glowingOrbRef s = None \<and> glowingOrbRef s' \<noteq> None \<longrightarrow>
          e = Timeout \<and> spawnDue s = [now s] \<and> spawnDue s' = [])
     \<and> (glowingOrbRef s \<noteq> None \<and> glowingOrbRef s' = None \<longrightarrow>
          e = KeyDown ''KeyE'' \<and> checkOrbProximity s)
     \<and> (zombieStateRef s = ''dead'' \<and> spawnDue s = [] \<longrightarrow>
          spawnDue s' = [] \<and> (glowingOrbRef s = None \<longrightarrow> glowingOrbRef s' = None))
     \<and> sceneOrbs s = (if glowingOrbRef s = None then 0 else 1)"
  proof (cases k)
    case Quiet
    then show ?thesis using k alive orbs pend one by (auto simp: effectOf_def)
  next
    case Kill
    then show ?thesis using k alive orbs pend one by (auto simp: effectOf_def)
  next
    case Spawn
    then show ?thesis using k alive orbs pend one by (auto simp: effectOf_def)
  next
    case Collect
    then show ?thesis using k alive orbs pend one by (auto simp: effectOf_def)
  qed
  have prox: "checkOrbProximity s \<longleftrightarrow>
      (\<exists>player orb. playerRef s = Some player \<and> glowingOrbRef s = Some orb
         \<and> distanceTo (position player) (position orb) \<le> 2.5)"
    by (rule checkOrbProximity_iff)
  have coll: "e = KeyDown ''KeyE'' \<and> checkOrbProximity s \<longrightarrow>
      glowingOrbRef s' = None \<and> sceneOrbs s' = 0 \<and> \<not> showPickupPrompt s'"
  proof
    assume a: "e = KeyDown ''KeyE'' \<and> checkOrbProximity s"
    then have "step (KeyDown ''KeyE'') s = Inr s'" using assms(2) by blast
    then have s': "handleKeyDown ''KeyE'' s = s'" by simp
    have "glowingOrbRef s \<noteq> None" using a checkOrbProximity_None [of s] by blast
    then have one: "sceneOrbs s = 1" using orbs by simp
    have "glowingOrbRef (handleKeyDown ''KeyE'' s) = None
        \<and> sceneOrbs (handleKeyDown ''KeyE'' s) = sceneOrbs s - 1
        \<and> \<not> showPickupPrompt (handleKeyDown ''KeyE'' s)"
      using a by (intro collect_removes) blast
    then show "glowingOrbRef s' = None \<and> sceneOrbs s' = 0 \<and> \<not> showPickupPrompt s'"
      unfolding s' one by simp
  qed
  from safe prox coll live show ?thesis
    by (elim conjE, intro conjI) assumption+
qed

text \<open>
  The scenario: the kill at 300 ms schedules the spawn for 2300 ms, at 2300 ms the
  pickup appears one unit above the zombie, the player, in range, presses E and the
  pickup is gone, and it is still gone after the next frame.
\<close>

theorem pickup_lifecycle_witness:
  "reachable hitDue \<and> step Timeout hitDue = Inr killed
   \<and> zombieStateRef hitDue \<noteq> ''dead'' \<and> glowingOrbRef hitDue = None \<and> spawnDue hitDue = []
   \<and> now hitDue = 300 \<and> zombieStateRef killed = ''dead'' \<and> spawnDue killed = [2300]
   \<and> reachable spawnTime \<and> step Timeout spawnTime = Inr spawned
   \<and> spawnDue spawnTime = [2300] \<and> now spawnTime = 2300 \<and> glowingOrbRef spawnTime = None
   \<and> zombieRef spawnTime = Some \<lparr>position = Vector3 (- 5) 0 (- 5)\<rparr>
   \<and> spawnDue spawned = []
   \<and> glowingOrbRef spawned = Some (orbAt (Vector3 (- 5) 0 (- 5)))
   \<and> reachable spawned \<and> step (KeyDown ''KeyE'') spawned = Inr collected
   \<and> playerRef spawned = Some \<lparr>position = Vector3 (- 4) 0 (- 4)\<rparr>
   \<and> checkOrbProximity spawned
   \<and> glowingOrbRef collected = None \<and> sceneOrbs collected = 0
   \<and> reachable collected \<and> step AnimationFrame collected = Inr (animate collected)
   \<and> zombieStateRef collected = ''dead'' \<and> spawnDue collected = []
   \<and> glowingOrbRef (animate collected) = None \<and> spawnDue (animate collected) = []"
proof -
  note kill = pickup_lifecycle [OF reachable_hitDue step_hitDue, where d = 2300]
  note spawn = pickup_lifecycle [OF reachable_spawnTime step_spawnTime, where d = 2300]
  note collect = pickup_lifecycle [OF reachable_spawned step_collect, where d = 2300]
  have frame: "step AnimationFrame collected = Inr (animate collected)" by simp
  note after = pickup_lifecycle [OF reachable_collected frame, where d = 2300]
  have 1: "zombieStateRef hitDue \<noteq> ''dead''" "now hitDue = 300"
    "zombieStateRef killed = ''dead''"
    by (simp_all add: hitDue_fields killed_fields)
  have 2: "glowingOrbRef hitDue = None" "spawnDue hitDue = []"
    using kill 1 by simp_all
  have 3: "spawnDue killed = [2300]"
    using kill 1 by simp
  have 4: "spawnDue spawnTime = [2300]" "now spawnTime = 2300"
    "zombieRef spawnTime = Some \<lparr>position = Vector3 (- 5) 0 (- 5)\<rparr>"
    by (simp_all add: spawnTime_fields)
  have 5: "glowingOrbRef spawnTime = None"
    using spawn 4 by simp
  have 6: "spawnDue spawned = []"
    "glowingOrbRef spawned = Some (orbAt (Vector3 (- 5) 0 (- 5)))"
    using spawn 4 by (simp_all add: spawned_fields)
  have 7: "checkOrbProximity spawned" by (rule checkOrbProximity_spawned)
  have 8: "glowingOrbRef collected = None" "sceneOrbs collected = 0"
    using collect 7 by blast+
  have 9: "zombieStateRef collected = ''dead''" "spawnDue collected = []"
    by (simp_all add: collected_fields)
  have 10: "glowingOrbRef (animate collected) = None" "spawnDue (animate collected) = []"
    using after 8 9 by blast+
  show ?thesis
    by (intro conjI reachable_hitDue step_hitDue reachable_spawnTime step_spawnTime
        reachable_spawned step_collect reachable_collected frame spawned_more(1)
        1 2 3 4 5 6 7 8 9 10)
qed

section \<open>Timer callbacks and absent objects\<close>



end
